theory Spec2Isabelle
  imports Main "HOL-Library.Word"
begin

section \<open>Data model of the Go binding (bindings/go/main.go)\<close>

type_synonym byte = "8 word"

text \<open>The Go array types \<open>Bytes32\<close>, \<open>Bytes48\<close>, \<open>KZGCommitment\<close>, \<open>KZGProof\<close>, \<open>Blob\<close>
  and \<open>Cell\<close>. A Go array has a fixed length; here it is a list, and the length is
  stated where a property depends on it.\<close>

type_synonym Bytes32 = "byte list"
type_synonym Bytes48 = "byte list"
type_synonym KZGCommitment = "byte list"
type_synonym KZGProof = "byte list"
type_synonym Blob = "byte list"
type_synonym Cell = "Bytes32 list"

text \<open>The return code of the C library. In Go \<open>C.C_KZG_RET\<close> is an integral type, so a
  value other than the four named constants is well formed; the enumeration itself is
  declared in the C header, which the binding only includes. \<open>C_KZG_OTHER n\<close> stands for
  any value that is none of the named ones.\<close>

datatype C_KZG_RET = C_KZG_OK | C_KZG_BADARGS | C_KZG_ERROR | C_KZG_MALLOC | C_KZG_OTHER nat

text \<open>Go error values: the three package variables \<open>ErrBadArgs\<close> ("bad arguments"),
  \<open>ErrError\<close> ("unexpected error"), \<open>ErrMalloc\<close> ("malloc failed"); the error built by
  \<open>fmt.Errorf("unexpected error from c-library: %v", ret)\<close>; and the two errors of
  \<open>encoding/hex\<close>. A \<open>nil\<close> error is \<open>None\<close>.\<close>

datatype error =
    ErrBadArgs
  | ErrError
  | ErrMalloc
  | UnexpectedCLibraryError C_KZG_RET
  | InvalidByteError char
  | ErrLength

text \<open>The values a Go \<open>panic\<close> of this file carries:
  "trusted setup is already loaded", "trusted setup isn't loaded",
  "len(g1Bytes) is not a multiple of n", "len(g2Bytes) is not a multiple of n",
  "error reading trusted setup", and the run-time panic of an index or slice bound
  out of range.\<close>

datatype panic =
    AlreadyLoaded
  | NotLoaded
  | G1NotMultiple nat
  | G2NotMultiple nat
  | ErrorReadingSetup
  | OutOfRange

datatype 'a outcome = Panic panic | Returned 'a

text \<open>The package variables \<open>loaded\<close> and \<open>settings\<close>; \<open>'s\<close> is the C struct
  \<open>KZGSettings\<close>.\<close>

record 's global =
  loaded :: bool
  settings :: 's

text \<open>The C side, which the binding reaches through cgo: the constants of the header
  and the functions of the library. They are parameters of the model. An output
  parameter of a C function is returned next to the return code: it is the content of
  the buffer after the call. The binding always passes a freshly zeroed buffer.
  A \<open>*Blob\<close> argument is a \<open>Blob option\<close>, \<open>None\<close> being the nil pointer.
  In \<open>compute_cells_and_proofs\<close> the boolean tells whether the \<open>proofs\<close> pointer is
  non-nil. \<open>'f\<close> is the C type \<open>FILE\<close>.\<close>

record ('s, 'f) clib =
  BYTES_PER_BLOB :: nat
  BYTES_PER_FIELD_ELEMENT :: nat
  FIELD_ELEMENTS_PER_CELL :: nat
  BYTES_PER_CELL :: nat
  CELLS_PER_EXT_BLOB :: nat
  BYTES_PER_G1 :: nat
  BYTES_PER_G2 :: nat
  load_trusted_setup :: "'s \<Rightarrow> byte list \<Rightarrow> nat \<Rightarrow> byte list \<Rightarrow> nat \<Rightarrow> C_KZG_RET \<times> 's"
  fopen :: "string \<Rightarrow> string \<Rightarrow> 'f option"
  load_trusted_setup_file :: "'s \<Rightarrow> 'f \<Rightarrow> C_KZG_RET \<times> 's"
  free_trusted_setup :: "'s \<Rightarrow> 's"
  blob_to_kzg_commitment :: "Blob option \<Rightarrow> 's \<Rightarrow> C_KZG_RET \<times> KZGCommitment"
  compute_kzg_proof :: "Blob option \<Rightarrow> Bytes32 \<Rightarrow> 's \<Rightarrow> C_KZG_RET \<times> KZGProof \<times> Bytes32"
  compute_blob_kzg_proof :: "Blob option \<Rightarrow> Bytes48 \<Rightarrow> 's \<Rightarrow> C_KZG_RET \<times> KZGProof"
  verify_kzg_proof :: "Bytes48 \<Rightarrow> Bytes32 \<Rightarrow> Bytes32 \<Rightarrow> Bytes48 \<Rightarrow> 's \<Rightarrow> C_KZG_RET \<times> bool"
  verify_blob_kzg_proof :: "Blob option \<Rightarrow> Bytes48 \<Rightarrow> Bytes48 \<Rightarrow> 's \<Rightarrow> C_KZG_RET \<times> bool"
  verify_blob_kzg_proof_batch ::
    "Blob list \<Rightarrow> Bytes48 list \<Rightarrow> Bytes48 list \<Rightarrow> nat \<Rightarrow> 's \<Rightarrow> C_KZG_RET \<times> bool"
  compute_cells_and_proofs ::
    "bool \<Rightarrow> Blob option \<Rightarrow> 's \<Rightarrow> C_KZG_RET \<times> Cell list \<times> KZGProof list"
  cells_to_blob :: "Cell list \<Rightarrow> C_KZG_RET \<times> Blob"
  recover_all_cells :: "64 word list \<Rightarrow> Cell list \<Rightarrow> nat \<Rightarrow> 's \<Rightarrow> C_KZG_RET \<times> Cell list"
  verify_cell_proof :: "Bytes48 \<Rightarrow> 64 word \<Rightarrow> Cell \<Rightarrow> Bytes48 \<Rightarrow> 's \<Rightarrow> C_KZG_RET \<times> bool"
  verify_cell_proof_batch ::
    "Bytes48 list \<Rightarrow> nat \<Rightarrow> 64 word list \<Rightarrow> 64 word list \<Rightarrow> Cell list \<Rightarrow> Bytes48 list
      \<Rightarrow> nat \<Rightarrow> 's \<Rightarrow> C_KZG_RET \<times> bool"

text \<open>The zero values of the array types: \<open>Bytes32{}\<close>, \<open>KZGCommitment{}\<close> and
  \<open>KZGProof{}\<close>, \<open>Blob{}\<close>, \<open>[CellsPerExtBlob]Cell{}\<close>, \<open>[CellsPerExtBlob]KZGProof{}\<close>.\<close>

definition zeroBytes32 :: Bytes32 where
  "zeroBytes32 = replicate 32 0"

definition zeroBytes48 :: Bytes48 where
  "zeroBytes48 = replicate 48 0"

definition zeroBlob :: "('s, 'f) clib \<Rightarrow> Blob" where
  "zeroBlob lib = replicate (BYTES_PER_BLOB lib) 0"

definition zeroCells :: "('s, 'f) clib \<Rightarrow> Cell list" where
  "zeroCells lib =
     replicate (CELLS_PER_EXT_BLOB lib) (replicate (FIELD_ELEMENTS_PER_CELL lib) zeroBytes32)"

definition zeroProofs :: "('s, 'f) clib \<Rightarrow> KZGProof list" where
  "zeroProofs lib = replicate (CELLS_PER_EXT_BLOB lib) zeroBytes48"

section \<open>Helper functions\<close>

fun makeErrorFromRet :: "C_KZG_RET \<Rightarrow> error" where
  "makeErrorFromRet C_KZG_BADARGS = ErrBadArgs"
| "makeErrorFromRet C_KZG_ERROR = ErrError"
| "makeErrorFromRet C_KZG_MALLOC = ErrMalloc"
| "makeErrorFromRet ret = UnexpectedCLibraryError ret"

text \<open>\<open>bytes.HasPrefix\<close> of the Go standard library.\<close>

definition HasPrefix :: "string \<Rightarrow> string \<Rightarrow> bool" where
  "HasPrefix s pre = (take (length pre) s = pre)"

text \<open>The table \<open>reverseHexTable\<close> of \<open>encoding/hex\<close>: the value of a hexadecimal digit,
  in either case; \<open>None\<close> stands for the table's entry \<open>0xff\<close>.\<close>

definition fromHexChar :: "char \<Rightarrow> nat option" where
  "fromHexChar c =
     (let n = (of_char c :: nat) in
      if 48 \<le> n \<and> n \<le> 57 then Some (n - 48)
      else if 97 \<le> n \<and> n \<le> 102 then Some (n - 87)
      else if 65 \<le> n \<and> n \<le> 70 then Some (n - 55)
      else None)"

text \<open>\<open>hex.Decode(dst, src)\<close> of the Go standard library, from index \<open>i\<close> of \<open>dst\<close> on:
  it writes one byte per pair of digits, stops at the first byte that is no digit, and
  reports \<open>ErrLength\<close> for a trailing single digit. It returns the number of bytes
  written; \<open>dst\<close> is a slice of the receiver, so the bytes written before an error stay
  written. Writing past the end of \<open>dst\<close> panics.\<close>

fun hex_Decode :: "byte list \<Rightarrow> nat \<Rightarrow> string \<Rightarrow> (byte list \<times> nat \<times> error option) outcome" where
  "hex_Decode dst i (p # q # src) =
     (case fromHexChar p of
        None \<Rightarrow> Returned (dst, i, Some (InvalidByteError p))
      | Some a \<Rightarrow>
          (case fromHexChar q of
             None \<Rightarrow> Returned (dst, i, Some (InvalidByteError q))
           | Some b \<Rightarrow>
               if i < length dst then hex_Decode (dst[i := of_nat (a * 16 + b)]) (i + 1) src
               else Panic OutOfRange))"
| "hex_Decode dst i [p] =
     (case fromHexChar p of
        None \<Rightarrow> Returned (dst, i, Some (InvalidByteError p))
      | Some a \<Rightarrow> Returned (dst, i, Some ErrLength))"
| "hex_Decode dst i [] = Returned (dst, i, None)"

section \<open>Unmarshal functions\<close>

text \<open>\<open>Bytes32.UnmarshalText\<close>, \<open>Bytes48.UnmarshalText\<close> and \<open>Blob.UnmarshalText\<close> have the
  same body, over receivers of 32, 48 and \<open>BytesPerBlob\<close> bytes: \<open>len(b)\<close> is the length
  of the receiver. The result carries the receiver after the call.\<close>

definition UnmarshalText_bytes :: "byte list \<Rightarrow> string \<Rightarrow> (byte list \<times> error option) outcome" where
  "UnmarshalText_bytes b input0 =
     (let input = (if HasPrefix input0 ''0x'' then drop 2 input0 else input0) in
      if length input \<noteq> 2 * length b then Returned (b, Some ErrBadArgs)
      else
        case hex_Decode b 0 input of
          Panic p \<Rightarrow> Panic p
        | Returned (b', l, Some err) \<Rightarrow> Returned (b', Some err)
        | Returned (b', l, None) \<Rightarrow>
            if l \<noteq> length b then Returned (b', Some ErrBadArgs) else Returned (b', None))"

definition Bytes32_UnmarshalText :: "Bytes32 \<Rightarrow> string \<Rightarrow> (Bytes32 \<times> error option) outcome" where
  "Bytes32_UnmarshalText b input = UnmarshalText_bytes b input"

definition Bytes48_UnmarshalText :: "Bytes48 \<Rightarrow> string \<Rightarrow> (Bytes48 \<times> error option) outcome" where
  "Bytes48_UnmarshalText b input = UnmarshalText_bytes b input"

definition Blob_UnmarshalText :: "Blob \<Rightarrow> string \<Rightarrow> (Blob \<times> error option) outcome" where
  "Blob_UnmarshalText b input = UnmarshalText_bytes b input"

text \<open>The loop of \<open>Cell.UnmarshalText\<close>: \<open>for i := 0; i < FieldElementsPerCell; i++\<close>.
  The slice expression \<open>input[offset : offset+charsPerFieldElement]\<close> and the index
  \<open>c[i]\<close> panic out of range.\<close>

function Cell_loop ::
  "('s, 'f) clib \<Rightarrow> string \<Rightarrow> nat \<Rightarrow> nat \<Rightarrow> Cell \<Rightarrow> (Cell \<times> error option) outcome"
where
  "Cell_loop lib input i offset c =
     (if i < FIELD_ELEMENTS_PER_CELL lib then
        let charsPerFieldElement = 2 * BYTES_PER_FIELD_ELEMENT lib in
        if length input < offset + charsPerFieldElement \<or> length c \<le> i then Panic OutOfRange
        else
          case Bytes32_UnmarshalText (c ! i) (take charsPerFieldElement (drop offset input)) of
            Panic p \<Rightarrow> Panic p
          | Returned (b', Some err) \<Rightarrow> Returned (c[i := b'], Some err)
          | Returned (b', None) \<Rightarrow>
              Cell_loop lib input (i + 1) (offset + charsPerFieldElement) (c[i := b'])
      else Returned (c, None))"
  by pat_completeness auto
termination
  by (relation "measure (\<lambda>(lib, input, i, offset, c). FIELD_ELEMENTS_PER_CELL lib - i)") auto

declare Cell_loop.simps [simp del]

definition Cell_UnmarshalText ::
  "('s, 'f) clib \<Rightarrow> Cell \<Rightarrow> string \<Rightarrow> (Cell \<times> error option) outcome"
where
  "Cell_UnmarshalText lib c input0 =
     (let charsPerCell = 2 * BYTES_PER_CELL lib;
          input = (if HasPrefix input0 ''0x'' then drop 2 input0 else input0)
      in if length input \<noteq> charsPerCell then Returned (c, Some ErrBadArgs)
         else Cell_loop lib input 0 0 c)"

section \<open>Interface functions\<close>

definition LoadTrustedSetup ::
  "('s, 'f) clib \<Rightarrow> 's global \<Rightarrow> byte list \<Rightarrow> byte list \<Rightarrow> (error option \<times> 's global) outcome"
where
  "LoadTrustedSetup lib st g1Bytes g2Bytes =
     (if loaded st then Panic AlreadyLoaded
      else if length g1Bytes mod BYTES_PER_G1 lib \<noteq> 0 then Panic (G1NotMultiple (BYTES_PER_G1 lib))
      else if length g2Bytes mod BYTES_PER_G2 lib \<noteq> 0 then Panic (G2NotMultiple (BYTES_PER_G2 lib))
      else
        let numG1Elements = length g1Bytes div BYTES_PER_G1 lib;
            numG2Elements = length g2Bytes div BYTES_PER_G2 lib;
            (ret, s') = load_trusted_setup lib (settings st) g1Bytes numG1Elements g2Bytes numG2Elements
        in if ret = C_KZG_OK then Returned (None, \<lparr>loaded = True, settings = s'\<rparr>)
           else Returned (Some (makeErrorFromRet ret), st\<lparr>settings := s'\<rparr>))"

definition LoadTrustedSetupFile ::
  "('s, 'f) clib \<Rightarrow> 's global \<Rightarrow> string \<Rightarrow> (error option \<times> 's global) outcome"
where
  "LoadTrustedSetupFile lib st trustedSetupFile =
     (if loaded st then Panic AlreadyLoaded
      else case fopen lib trustedSetupFile ''r'' of
        None \<Rightarrow> Panic ErrorReadingSetup
      | Some fp \<Rightarrow>
          let (ret, s') = load_trusted_setup_file lib (settings st) fp
          in if ret = C_KZG_OK then Returned (None, \<lparr>loaded = True, settings = s'\<rparr>)
             else Returned (Some (makeErrorFromRet ret), st\<lparr>settings := s'\<rparr>))"

definition FreeTrustedSetup :: "('s, 'f) clib \<Rightarrow> 's global \<Rightarrow> ('s global) outcome" where
  "FreeTrustedSetup lib st =
     (if \<not> loaded st then Panic NotLoaded
      else Returned \<lparr>loaded = False, settings = free_trusted_setup lib (settings st)\<rparr>)"

definition BlobToKZGCommitment ::
  "('s, 'f) clib \<Rightarrow> 's global \<Rightarrow> Blob option \<Rightarrow> (KZGCommitment \<times> error option) outcome"
where
  "BlobToKZGCommitment lib st blob =
     (if \<not> loaded st then Panic NotLoaded
      else if blob = None then Returned (zeroBytes48, Some ErrBadArgs)
      else
        let (ret, commitment) = blob_to_kzg_commitment lib blob (settings st)
        in if ret \<noteq> C_KZG_OK then Returned (zeroBytes48, Some (makeErrorFromRet ret))
           else Returned (commitment, None))"

definition ComputeKZGProof ::
  "('s, 'f) clib \<Rightarrow> 's global \<Rightarrow> Blob option \<Rightarrow> Bytes32
     \<Rightarrow> (KZGProof \<times> Bytes32 \<times> error option) outcome"
where
  "ComputeKZGProof lib st blob zBytes =
     (if \<not> loaded st then Panic NotLoaded
      else if blob = None then Returned (zeroBytes48, zeroBytes32, Some ErrBadArgs)
      else
        let (ret, proof, y) = compute_kzg_proof lib blob zBytes (settings st)
        in if ret \<noteq> C_KZG_OK then Returned (zeroBytes48, zeroBytes32, Some (makeErrorFromRet ret))
           else Returned (proof, y, None))"

definition ComputeBlobKZGProof ::
  "('s, 'f) clib \<Rightarrow> 's global \<Rightarrow> Blob option \<Rightarrow> Bytes48 \<Rightarrow> (KZGProof \<times> error option) outcome"
where
  "ComputeBlobKZGProof lib st blob commitmentBytes =
     (if \<not> loaded st then Panic NotLoaded
      else if blob = None then Returned (zeroBytes48, Some ErrBadArgs)
      else
        let (ret, proof) = compute_blob_kzg_proof lib blob commitmentBytes (settings st)
        in if ret \<noteq> C_KZG_OK then Returned (zeroBytes48, Some (makeErrorFromRet ret))
           else Returned (proof, None))"

definition VerifyKZGProof ::
  "('s, 'f) clib \<Rightarrow> 's global \<Rightarrow> Bytes48 \<Rightarrow> Bytes32 \<Rightarrow> Bytes32 \<Rightarrow> Bytes48
     \<Rightarrow> (bool \<times> error option) outcome"
where
  "VerifyKZGProof lib st commitmentBytes zBytes yBytes proofBytes =
     (if \<not> loaded st then Panic NotLoaded
      else
        let (ret, result) = verify_kzg_proof lib commitmentBytes zBytes yBytes proofBytes (settings st)
        in if ret \<noteq> C_KZG_OK then Returned (False, Some (makeErrorFromRet ret))
           else Returned (result, None))"

definition VerifyBlobKZGProof ::
  "('s, 'f) clib \<Rightarrow> 's global \<Rightarrow> Blob option \<Rightarrow> Bytes48 \<Rightarrow> Bytes48
     \<Rightarrow> (bool \<times> error option) outcome"
where
  "VerifyBlobKZGProof lib st blob commitmentBytes proofBytes =
     (if \<not> loaded st then Panic NotLoaded
      else if blob = None then Returned (False, Some ErrBadArgs)
      else
        let (ret, result) = verify_blob_kzg_proof lib blob commitmentBytes proofBytes (settings st)
        in if ret \<noteq> C_KZG_OK then Returned (False, Some (makeErrorFromRet ret))
           else Returned (result, None))"

definition VerifyBlobKZGProofBatch ::
  "('s, 'f) clib \<Rightarrow> 's global \<Rightarrow> Blob list \<Rightarrow> Bytes48 list \<Rightarrow> Bytes48 list
     \<Rightarrow> (bool \<times> error option) outcome"
where
  "VerifyBlobKZGProofBatch lib st blobs commitmentsBytes proofsBytes =
     (if \<not> loaded st then Panic NotLoaded
      else if length blobs \<noteq> length commitmentsBytes \<or> length blobs \<noteq> length proofsBytes
        then Returned (False, Some ErrBadArgs)
      else
        let (ret, result) =
              verify_blob_kzg_proof_batch lib blobs commitmentsBytes proofsBytes (length blobs)
                (settings st)
        in if ret \<noteq> C_KZG_OK then Returned (False, Some (makeErrorFromRet ret))
           else Returned (result, None))"

definition ComputeCells ::
  "('s, 'f) clib \<Rightarrow> 's global \<Rightarrow> Blob option \<Rightarrow> (Cell list \<times> error option) outcome"
where
  "ComputeCells lib st blob =
     (if \<not> loaded st then Panic NotLoaded
      else
        let (ret, cells, proofs) = compute_cells_and_proofs lib False blob (settings st)
        in if ret \<noteq> C_KZG_OK then Returned (zeroCells lib, Some (makeErrorFromRet ret))
           else Returned (cells, None))"

definition ComputeCellsAndProofs ::
  "('s, 'f) clib \<Rightarrow> 's global \<Rightarrow> Blob option
     \<Rightarrow> (Cell list \<times> KZGProof list \<times> error option) outcome"
where
  "ComputeCellsAndProofs lib st blob =
     (if \<not> loaded st then Panic NotLoaded
      else
        let (ret, cells, proofs) = compute_cells_and_proofs lib True blob (settings st)
        in if ret \<noteq> C_KZG_OK
           then Returned (zeroCells lib, zeroProofs lib, Some (makeErrorFromRet ret))
           else Returned (cells, proofs, None))"

definition CellsToBlob ::
  "('s, 'f) clib \<Rightarrow> 's global \<Rightarrow> Cell list \<Rightarrow> (Blob \<times> error option) outcome"
where
  "CellsToBlob lib st cells =
     (if \<not> loaded st then Panic NotLoaded
      else
        let (ret, blob) = cells_to_blob lib cells
        in if ret \<noteq> C_KZG_OK then Returned (zeroBlob lib, Some (makeErrorFromRet ret))
           else Returned (blob, None))"

definition RecoverAllCells ::
  "('s, 'f) clib \<Rightarrow> 's global \<Rightarrow> 64 word list \<Rightarrow> Cell list
     \<Rightarrow> (Cell list \<times> error option) outcome"
where
  "RecoverAllCells lib st cellIds cells =
     (if \<not> loaded st then Panic NotLoaded
      else if length cellIds \<noteq> length cells then Returned (zeroCells lib, Some ErrBadArgs)
      else
        let (ret, recovered) = recover_all_cells lib cellIds cells (length cells) (settings st)
        in if ret \<noteq> C_KZG_OK then Returned (zeroCells lib, Some (makeErrorFromRet ret))
           else Returned (recovered, None))"

definition VerifyCellProof ::
  "('s, 'f) clib \<Rightarrow> 's global \<Rightarrow> Bytes48 \<Rightarrow> 64 word \<Rightarrow> Cell \<Rightarrow> Bytes48
     \<Rightarrow> (bool \<times> error option) outcome"
where
  "VerifyCellProof lib st commitmentBytes cellId cell proofBytes =
     (if \<not> loaded st then Panic NotLoaded
      else
        let (ret, result) = verify_cell_proof lib commitmentBytes cellId cell proofBytes (settings st)
        in if ret \<noteq> C_KZG_OK then Returned (False, Some (makeErrorFromRet ret))
           else Returned (result, None))"

definition VerifyCellProofBatch ::
  "('s, 'f) clib \<Rightarrow> 's global \<Rightarrow> Bytes48 list \<Rightarrow> 64 word list \<Rightarrow> 64 word list \<Rightarrow> Cell list
     \<Rightarrow> Bytes48 list \<Rightarrow> (bool \<times> error option) outcome"
where
  "VerifyCellProofBatch lib st commitmentsBytes rowIndices columnIndices cells proofsBytes =
     (if \<not> loaded st then Panic NotLoaded
      else
        let cellCount = length cells
        in if length rowIndices \<noteq> cellCount \<or> length columnIndices \<noteq> cellCount
              \<or> length proofsBytes \<noteq> cellCount
           then Returned (False, Some ErrBadArgs)
           else
             let (ret, result) =
                   verify_cell_proof_batch lib commitmentsBytes (length commitmentsBytes)
                     rowIndices columnIndices cells proofsBytes (length cells) (settings st)
             in if ret \<noteq> C_KZG_OK then Returned (False, Some (makeErrorFromRet ret))
                else Returned (result, None))"

section \<open>Specification-side definitions\<close>

text \<open>The error taxonomy of the specification (section 7): \<open>BadArguments\<close>,
  \<open>InternalError\<close> and \<open>AllocationFailure\<close>, which the binding names \<open>ErrBadArgs\<close>,
  \<open>ErrError\<close> and \<open>ErrMalloc\<close>.\<close>

definition typedError :: "error \<Rightarrow> bool" where
  "typedError e = (e = ErrBadArgs \<or> e = ErrError \<or> e = ErrMalloc)"

text \<open>The errors an interface function can hand to its caller: none, one of the three
  typed errors, or the formatted error for a return code that is none of the named
  ones.\<close>

fun bindingError :: "error option \<Rightarrow> bool" where
  "bindingError None = True"
| "bindingError (Some ErrBadArgs) = True"
| "bindingError (Some ErrError) = True"
| "bindingError (Some ErrMalloc) = True"
| "bindingError (Some (UnexpectedCLibraryError (C_KZG_OTHER n))) = True"
| "bindingError (Some e) = False"

text \<open>The input of an \<open>UnmarshalText\<close> "after stripping an optional 0x prefix".\<close>

definition strip0x :: "string \<Rightarrow> string" where
  "strip0x input = (if HasPrefix input ''0x'' then drop 2 input else input)"

text \<open>The bytes that a string of hexadecimal digits denotes, two digits per byte.\<close>

fun hexBytes :: "string \<Rightarrow> byte list" where
  "hexBytes (p # q # src) =
     of_nat (the (fromHexChar p) * 16 + the (fromHexChar q)) # hexBytes src"
| "hexBytes src = []"

text \<open>Modelled from the spec: the C function \<open>verify_blob_kzg_proof_batch\<close> lives in
  \<open>c_kzg_4844.c\<close>, which is not among the sources at hand; only its caller is.
  Section 4.4: "Empty batch (n = 0) must return true trivially", and section 8,
  property 4: "n = 0 returns true". What the function does with a non-empty batch (the
  combined pairing check) is the parameter \<open>check\<close>.\<close>

definition verify_blob_kzg_proof_batch_spec ::
  "(Blob list \<Rightarrow> Bytes48 list \<Rightarrow> Bytes48 list \<Rightarrow> nat \<Rightarrow> 's \<Rightarrow> C_KZG_RET \<times> bool)
     \<Rightarrow> Blob list \<Rightarrow> Bytes48 list \<Rightarrow> Bytes48 list \<Rightarrow> nat \<Rightarrow> 's \<Rightarrow> C_KZG_RET \<times> bool"
where
  "verify_blob_kzg_proof_batch_spec check blobs commitments proofs n s =
     (if n = 0 then (C_KZG_OK, True) else check blobs commitments proofs n s)"

section \<open>A concrete library for closed instances\<close>

text \<open>A library whose every call answers with the return code \<open>r\<close> and leaves its
  output buffers as the binding passed them (zeroed); \<open>fopen\<close> succeeds. The constants
  are those of the EIP-4844 and PeerDAS parameter set. It serves to evaluate the
  binding on concrete inputs.\<close>

definition fixedLib :: "C_KZG_RET \<Rightarrow> (unit, unit) clib" where
  "fixedLib r =
     \<lparr> BYTES_PER_BLOB = 131072,
       BYTES_PER_FIELD_ELEMENT = 32,
       FIELD_ELEMENTS_PER_CELL = 64,
       BYTES_PER_CELL = 2048,
       CELLS_PER_EXT_BLOB = 128,
       BYTES_PER_G1 = 48,
       BYTES_PER_G2 = 96,
       load_trusted_setup = (\<lambda>s g1 n1 g2 n2. (r, s)),
       fopen = (\<lambda>name mode. Some ()),
       load_trusted_setup_file = (\<lambda>s fp. (r, s)),
       free_trusted_setup = (\<lambda>s. s),
       blob_to_kzg_commitment = (\<lambda>blob s. (r, zeroBytes48)),
       compute_kzg_proof = (\<lambda>blob z s. (r, zeroBytes48, zeroBytes32)),
       compute_blob_kzg_proof = (\<lambda>blob c s. (r, zeroBytes48)),
       verify_kzg_proof = (\<lambda>c z y p s. (r, False)),
       verify_blob_kzg_proof = (\<lambda>blob c p s. (r, False)),
       verify_blob_kzg_proof_batch = (\<lambda>blobs cs ps n s. (r, False)),
       compute_cells_and_proofs =
         (\<lambda>withProofs blob s.
            (r, replicate 128 (replicate 64 zeroBytes32), replicate 128 zeroBytes48)),
       cells_to_blob = (\<lambda>cells. (r, replicate 131072 0)),
       recover_all_cells = (\<lambda>ids cells n s. (r, replicate 128 (replicate 64 zeroBytes32))),
       verify_cell_proof = (\<lambda>c i cell p s. (r, False)),
       verify_cell_proof_batch = (\<lambda>cs nc rows cols cells ps n s. (r, False)) \<rparr>"

definition unloadedState :: "unit global" where
  "unloadedState = \<lparr> loaded = False, settings = () \<rparr>"

definition loadedState :: "unit global" where
  "loadedState = \<lparr> loaded = True, settings = () \<rparr>"

section \<open>Polynomials in evaluation form\<close>

text \<open>The cell operations of the specification (section 4.5) speak of "the blob's
  polynomial", of its evaluation on the extended domain and of the inverse transform.
  A polynomial is the list of its coefficients, lowest first; \<open>peval\<close> evaluates it,
  \<open>interp xs vs\<close> is the coefficient list, of length \<open>length xs\<close>, of the polynomial that
  takes the values \<open>vs\<close> at the points \<open>xs\<close> (what an inverse FFT computes when \<open>xs\<close> is a
  domain of roots of unity), built point by point in Newton's manner.\<close>

fun peval :: "'a::comm_ring_1 list \<Rightarrow> 'a \<Rightarrow> 'a" where
  "peval [] x = 0"
| "peval (c # cs) x = c + x * peval cs x"

fun padd :: "'a::comm_ring_1 list \<Rightarrow> 'a list \<Rightarrow> 'a list" where
  "padd [] q = q"
| "padd p [] = p"
| "padd (a # p) (b # q) = (a + b) # padd p q"

definition smult :: "'a::comm_ring_1 \<Rightarrow> 'a list \<Rightarrow> 'a list" where
  "smult c p = map (\<lambda>a. c * a) p"

text \<open>\<open>mul_linear t p\<close> is \<open>(X - t) * p\<close>, and \<open>vanish ts\<close> the product of the \<open>X - t\<close>.\<close>

definition mul_linear :: "'a::comm_ring_1 \<Rightarrow> 'a list \<Rightarrow> 'a list" where
  "mul_linear t p = padd (0 # p) (smult (- t) p)"

fun vanish :: "'a::comm_ring_1 list \<Rightarrow> 'a list" where
  "vanish [] = [1]"
| "vanish (t # ts) = mul_linear t (vanish ts)"

fun interp :: "'a::field list \<Rightarrow> 'a list \<Rightarrow> 'a list" where
  "interp (x # xs) (v # vs) =
     (let q = interp xs vs; w = vanish xs
      in padd q (smult ((v - peval q x) / peval w x) w))"
| "interp xs vs = []"

text \<open>Synthetic division by \<open>X - a\<close>: the quotient, one coefficient shorter.\<close>

fun synth_div :: "'a::comm_ring_1 list \<Rightarrow> 'a \<Rightarrow> 'a list" where
  "synth_div (c # d # ds) a = peval (d # ds) a # synth_div (d # ds) a"
| "synth_div p a = []"

text \<open>A list cut into consecutive pieces of \<open>n\<close> elements.\<close>

function chunks :: "nat \<Rightarrow> 'a list \<Rightarrow> 'a list list" where
  "chunks n xs = (if n = 0 \<or> xs = [] then [] else take n xs # chunks n (drop n xs))"
  by pat_completeness auto
termination
  by (relation "measure (\<lambda>(n, xs). length xs)") auto

declare chunks.simps [simp del]

section \<open>The cell operations of the library, from the specification\<close>

text \<open>What the specification leaves to the parameter set: the evaluation domain of a
  blob (\<open>FIELD_ELEMENTS_PER_BLOB\<close> points), the extended domain (twice as many), and
  the canonical 32-byte encoding of a field element with its validation
  (section 3: "valid iff its integer value is strictly less than the field modulus.
  Non-canonical encodings are rejected").\<close>

record 'a domain_params =
  eval_domain :: "'a list"
  ext_domain :: "'a list"
  decode_fe :: "Bytes32 \<Rightarrow> 'a option"
  encode_fe :: "'a \<Rightarrow> Bytes32"

text \<open>The parameters are well formed: the points of each domain are distinct, the
  extended domain has twice the size, every field element has one canonical encoding,
  of 32 bytes, and only canonical encodings decode.\<close>

definition params_ok :: "('a::field) domain_params \<Rightarrow> bool" where
  "params_ok P \<longleftrightarrow>
     distinct (eval_domain P) \<and> distinct (ext_domain P)
     \<and> length (ext_domain P) = 2 * length (eval_domain P)
     \<and> (\<forall>a. decode_fe P (encode_fe P a) = Some a)
     \<and> (\<forall>bs a. decode_fe P bs = Some a \<longrightarrow> encode_fe P a = bs)
     \<and> (\<forall>a. length (encode_fe P a) = 32)"

text \<open>The field elements of a blob (section 3: "a fixed-length ordered sequence of
  \<open>FIELD_ELEMENTS_PER_BLOB\<close> field elements"), if all are canonical; a valid blob has
  the length of the \<open>Blob\<close> type and canonical elements only.\<close>

definition blob_elements :: "'a domain_params \<Rightarrow> Blob \<Rightarrow> 'a list option" where
  "blob_elements P blob = those (map (decode_fe P) (chunks 32 blob))"

definition valid_blob :: "'a domain_params \<Rightarrow> Blob \<Rightarrow> bool" where
  "valid_blob P blob \<longleftrightarrow>
     length blob = 32 * length (eval_domain P) \<and> blob_elements P blob \<noteq> None"

text \<open>Modelled from the spec: the cell computation of \<open>compute_cells_and_proofs\<close>
  (\<open>c_kzg_4844.c\<close>, not among the sources at hand). Section 4.5, \<open>extendAndProve\<close>:
  "evaluates the blob's polynomial on a coset-extended domain of size
  2 x \<open>FIELD_ELEMENTS_PER_BLOB\<close> (via coset FFT), partitions the extended evaluation
  vector into \<open>CELLS_PER_EXT_BLOB\<close> contiguous fixed-size cells". The blob's polynomial
  is the one of degree below \<open>FIELD_ELEMENTS_PER_BLOB\<close> whose evaluations over the
  domain are the blob's elements (section 3).\<close>

definition extend_cells :: "('a::field) domain_params \<Rightarrow> nat \<Rightarrow> Blob \<Rightarrow> Cell list option" where
  "extend_cells P fepc blob =
     (case blob_elements P blob of
        None \<Rightarrow> None
      | Some vs \<Rightarrow>
          if length vs \<noteq> length (eval_domain P) then None
          else Some (chunks fepc
                 (map (\<lambda>y. encode_fe P (peval (interp (eval_domain P) vs) y)) (ext_domain P))))"

text \<open>Modelled from the spec: the C function \<open>compute_cells_and_proofs\<close>. It fails with
  \<open>BadArguments\<close> on a blob with a non-canonical element (section 4.1) and, here, on a
  nil blob; the proofs, when asked for, are the parameter \<open>prove\<close> ("proof generation
  may be omitted (cells-only variant)"). The binding ignores the buffers of a failed
  call.\<close>

definition compute_cells_and_proofs_spec ::
  "('a::field) domain_params \<Rightarrow> (Blob \<Rightarrow> 's \<Rightarrow> KZGProof list) \<Rightarrow> nat
     \<Rightarrow> bool \<Rightarrow> Blob option \<Rightarrow> 's \<Rightarrow> C_KZG_RET \<times> Cell list \<times> KZGProof list"
where
  "compute_cells_and_proofs_spec P prove fepc withProofs blob s =
     (case blob of
        None \<Rightarrow> (C_KZG_BADARGS, [], [])
      | Some b \<Rightarrow>
          (case extend_cells P fepc b of
             None \<Rightarrow> (C_KZG_BADARGS, [], [])
           | Some cells \<Rightarrow> (C_KZG_OK, cells, if withProofs then prove b s else [])))"

text \<open>Modelled from the spec: the reassembly of \<open>cells_to_blob\<close> (\<open>c_kzg_4844.c\<close>, not
  among the sources at hand). Section 4.5, \<open>assemble\<close>: "requires all
  \<open>CELLS_PER_EXT_BLOB\<close> cells present in correct position order; performs inverse coset
  FFT on the full extended evaluation vector and extracts/validates the original-domain
  polynomial. Fails with \<open>BadArguments\<close> if the extended evaluations are inconsistent
  with a polynomial of the expected degree bound."\<close>

definition assemble_cells :: "('a::field) domain_params \<Rightarrow> Cell list \<Rightarrow> Blob option" where
  "assemble_cells P cells =
     (case those (map (decode_fe P) (concat cells)) of
        None \<Rightarrow> None
      | Some es \<Rightarrow>
          if length es \<noteq> length (ext_domain P) then None
          else
            let d = interp (ext_domain P) es; n = length (eval_domain P)
            in if list_ex (\<lambda>c. c \<noteq> 0) (drop n d) then None
               else Some (concat (map (\<lambda>x. encode_fe P (peval (take n d) x)) (eval_domain P))))"

definition cells_to_blob_spec :: "('a::field) domain_params \<Rightarrow> Cell list \<Rightarrow> C_KZG_RET \<times> Blob" where
  "cells_to_blob_spec P cells =
     (case assemble_cells P cells of
        None \<Rightarrow> (C_KZG_BADARGS, [])
      | Some blob \<Rightarrow> (C_KZG_OK, blob))"

text \<open>The positions, in the extended evaluation vector, of the field elements of the
  cells with the given ids: cell \<open>id\<close> holds the positions \<open>id * fepc\<close> up to
  \<open>id * fepc + fepc - 1\<close>.\<close>

definition cell_positions :: "nat \<Rightarrow> 64 word list \<Rightarrow> nat list" where
  "cell_positions fepc ids = concat (map (\<lambda>id. map (\<lambda>j. unat id * fepc + j) [0..<fepc]) ids)"

text \<open>Modelled from the spec: the C function \<open>recover_all_cells\<close> (\<open>c_kzg_4844.c\<close>, not
  among the sources at hand). Section 4.5, \<open>recover\<close>: "given any subset of cells (each
  tagged with its position) covering at least half of the extended domain (i.e., at
  least \<open>CELLS_PER_EXT_BLOB / 2\<close> distinct cells) and no duplicate positions,
  reconstructs the full extended evaluation vector by polynomial interpolation treating
  absent positions as erasures [...]. Fails with \<open>BadArguments\<close> if fewer than the
  minimum cell count is supplied, if positions are duplicated, or if out-of-range
  position ids are given; fails with \<open>InternalError\<close> if the supplied cells are
  inconsistent with any degree-bounded polynomial". A non-canonical field element is
  \<open>BadArguments\<close> as everywhere (section 7).\<close>

definition recover_all_cells_spec ::
  "('a::field) domain_params \<Rightarrow> nat \<Rightarrow> nat \<Rightarrow> 64 word list \<Rightarrow> Cell list \<Rightarrow> nat \<Rightarrow> 's
     \<Rightarrow> C_KZG_RET \<times> Cell list"
where
  "recover_all_cells_spec P fepc ncells cell_ids cells num_cells s =
     (if num_cells < ncells div 2 then (C_KZG_BADARGS, [])
      else if \<not> distinct cell_ids then (C_KZG_BADARGS, [])
      else if list_ex (\<lambda>id. ncells \<le> unat id) cell_ids then (C_KZG_BADARGS, [])
      else
        case those (map (decode_fe P) (concat cells)) of
          None \<Rightarrow> (C_KZG_BADARGS, [])
        | Some es \<Rightarrow>
            let pts = map (\<lambda>k. ext_domain P ! k) (cell_positions fepc cell_ids)
            in if length es \<noteq> length pts then (C_KZG_BADARGS, [])
               else
                 let d = interp pts es; n = length (eval_domain P)
                 in if list_ex (\<lambda>c. c \<noteq> 0) (drop n d) then (C_KZG_ERROR, [])
                    else (C_KZG_OK,
                          chunks fepc
                            (map (\<lambda>y. encode_fe P (peval (take n d) y)) (ext_domain P))))"

section \<open>The commitment scheme of the library, from the specification\<close>

text \<open>What the specification leaves to the curve: the two pairing groups with their
  generators and the multiplication of a point by a scalar, the pairing, and the
  48-byte compressed encoding of a point of the first group with its validation
  (section 3: "must decode to a valid curve point [...] or the operation fails").\<close>

record ('a, 'g1, 'g2, 'gt) curve_params =
  g1_gen :: 'g1
  g2_gen :: 'g2
  smul1 :: "'a \<Rightarrow> 'g1 \<Rightarrow> 'g1"
  smul2 :: "'a \<Rightarrow> 'g2 \<Rightarrow> 'g2"
  pairing :: "'g1 \<Rightarrow> 'g2 \<Rightarrow> 'gt"
  compress :: "'g1 \<Rightarrow> Bytes48"
  decompress :: "Bytes48 \<Rightarrow> 'g1 option"

text \<open>The groups are modules over the scalar field, the pairing is bilinear, and a
  compressed point decodes to itself.\<close>

definition curve_ok ::
  "('a::field, 'g1::ab_group_add, 'g2::ab_group_add, 'gt) curve_params \<Rightarrow> bool"
where
  "curve_ok G \<longleftrightarrow>
     (\<forall>a b p. smul1 G (a + b) p = smul1 G a p + smul1 G b p)
     \<and> (\<forall>a b p. smul1 G (a * b) p = smul1 G a (smul1 G b p))
     \<and> (\<forall>a b q. smul2 G (a + b) q = smul2 G a q + smul2 G b q)
     \<and> (\<forall>a p q. pairing G (smul1 G a p) q = pairing G p (smul2 G a q))
     \<and> (\<forall>p. decompress G (compress G p) = Some p)"

text \<open>The \<open>Setup\<close> of section 3: "two parallel sequences of curve points (powers of a
  secret evaluation point, in each of the two pairing groups)"; of the second sequence
  the verification uses the first power, "the Setup's secret-point generator in the
  second group". \<open>setup_from G n tau\<close> is the setup with \<open>n\<close> powers of the secret
  \<open>tau\<close>.\<close>

record ('g1, 'g2) trusted_setup =
  g1_powers :: "'g1 list"
  g2_tau :: 'g2

definition setup_from ::
  "('a::field, 'g1::ab_group_add, 'g2::ab_group_add, 'gt) curve_params \<Rightarrow> nat \<Rightarrow> 'a
     \<Rightarrow> ('g1, 'g2) trusted_setup"
where
  "setup_from G n tau =
     \<lparr> g1_powers = map (\<lambda>i. smul1 G (tau ^ i) (g1_gen G)) [0..<n],
       g2_tau = smul2 G tau (g2_gen G) \<rparr>"

text \<open>Multi-scalar multiplication: the sum of the points, each multiplied by its
  scalar.\<close>

fun msm :: "('a \<Rightarrow> 'g \<Rightarrow> 'g) \<Rightarrow> 'a list \<Rightarrow> 'g list \<Rightarrow> 'g::ab_group_add" where
  "msm sm (c # cs) (p # ps) = sm c p + msm sm cs ps"
| "msm sm cs ps = 0"

text \<open>Modelled from the spec: the C function \<open>blob_to_kzg_commitment\<close> (\<open>c_kzg_4844.c\<close>,
  not among the sources at hand). Section 4.1: "Computes the commitment as the
  multi-scalar-multiplication of the blob's values (as Lagrange-basis coefficients over
  the evaluation domain) against the Setup's first-group powers, yielding a single curve
  point, then compresses it. Fails with \<open>BadArguments\<close> if any element is
  non-canonical". Against the powers of the secret, the scalars are the coefficients of
  the polynomial that the blob's values determine over the domain.\<close>

definition blob_to_kzg_commitment_spec ::
  "('a::field) domain_params \<Rightarrow> ('a, 'g1::ab_group_add, 'g2::ab_group_add, 'gt) curve_params
     \<Rightarrow> Blob option \<Rightarrow> ('g1, 'g2) trusted_setup \<Rightarrow> C_KZG_RET \<times> KZGCommitment"
where
  "blob_to_kzg_commitment_spec P G blob s =
     (case blob of
        None \<Rightarrow> (C_KZG_BADARGS, [])
      | Some b \<Rightarrow>
          (case blob_elements P b of
             None \<Rightarrow> (C_KZG_BADARGS, [])
           | Some vs \<Rightarrow>
               if length vs \<noteq> length (eval_domain P) then (C_KZG_BADARGS, [])
               else (C_KZG_OK,
                     compress G (msm (smul1 G) (interp (eval_domain P) vs) (g1_powers s)))))"

text \<open>Modelled from the spec: the C function \<open>compute_kzg_proof\<close> (\<open>c_kzg_4844.c\<close>, not
  among the sources at hand). Section 4.2, \<open>proveAt\<close>: "Evaluates the blob's polynomial
  at point z [...]; constructs the quotient polynomial (p(X) - y) / (X - z) via
  synthetic division and commits to it as the proof."\<close>

definition compute_kzg_proof_spec ::
  "('a::field) domain_params \<Rightarrow> ('a, 'g1::ab_group_add, 'g2::ab_group_add, 'gt) curve_params
     \<Rightarrow> Blob option \<Rightarrow> Bytes32 \<Rightarrow> ('g1, 'g2) trusted_setup \<Rightarrow> C_KZG_RET \<times> KZGProof \<times> Bytes32"
where
  "compute_kzg_proof_spec P G blob z_bytes s =
     (case blob of
        None \<Rightarrow> (C_KZG_BADARGS, [], [])
      | Some b \<Rightarrow>
          (case blob_elements P b of
             None \<Rightarrow> (C_KZG_BADARGS, [], [])
           | Some vs \<Rightarrow>
               if length vs \<noteq> length (eval_domain P) then (C_KZG_BADARGS, [], [])
               else
                 (case decode_fe P z_bytes of
                    None \<Rightarrow> (C_KZG_BADARGS, [], [])
                  | Some z \<Rightarrow>
                      let p = interp (eval_domain P) vs;
                          y = peval p z;
                          q = synth_div p z
                      in (C_KZG_OK, compress G (msm (smul1 G) q (g1_powers s)),
                          encode_fe P y))))"

text \<open>Modelled from the spec: the C function \<open>verify_kzg_proof\<close> (\<open>c_kzg_4844.c\<close>, not
  among the sources at hand). Section 4.3, \<open>verifyAt\<close>: "Checks the pairing identity
  e(commitment - [y], g2) == e(proof, [tau] - [z]) [...]. Returns true iff the identity
  holds exactly; any malformed input (non-canonical field element, invalid curve point)
  fails with \<open>BadArguments\<close> before any pairing is attempted."\<close>

definition verify_kzg_proof_spec ::
  "('a::field) domain_params \<Rightarrow> ('a, 'g1::ab_group_add, 'g2::ab_group_add, 'gt) curve_params
     \<Rightarrow> Bytes48 \<Rightarrow> Bytes32 \<Rightarrow> Bytes32 \<Rightarrow> Bytes48 \<Rightarrow> ('g1, 'g2) trusted_setup \<Rightarrow> C_KZG_RET \<times> bool"
where
  "verify_kzg_proof_spec P G commitment_bytes z_bytes y_bytes proof_bytes s =
     (case decompress G commitment_bytes of
        None \<Rightarrow> (C_KZG_BADARGS, False)
      | Some commitment \<Rightarrow>
          (case decode_fe P z_bytes of
             None \<Rightarrow> (C_KZG_BADARGS, False)
           | Some z \<Rightarrow>
               (case decode_fe P y_bytes of
                  None \<Rightarrow> (C_KZG_BADARGS, False)
                | Some y \<Rightarrow>
                    (case decompress G proof_bytes of
                       None \<Rightarrow> (C_KZG_BADARGS, False)
                     | Some prf \<Rightarrow>
                         (C_KZG_OK,
                          pairing G (commitment - smul1 G y (g1_gen G)) (g2_gen G)
                            = pairing G prf (g2_tau s - smul2 G z (g2_gen G)))))))"

section \<open>A small parameter set for closed instances\<close>

text \<open>The field with 17 elements, as the integers below 17.\<close>

typedef gf17 = "{0..<17::int}"
  by auto

setup_lifting type_definition_gf17

instantiation gf17 :: field
begin

lift_definition zero_gf17 :: gf17 is 0 by simp
lift_definition one_gf17 :: gf17 is 1 by simp
lift_definition plus_gf17 :: "gf17 \<Rightarrow> gf17 \<Rightarrow> gf17" is "\<lambda>a b. (a + b) mod 17" by simp
lift_definition minus_gf17 :: "gf17 \<Rightarrow> gf17 \<Rightarrow> gf17" is "\<lambda>a b. (a - b) mod 17" by simp
lift_definition uminus_gf17 :: "gf17 \<Rightarrow> gf17" is "\<lambda>a. (- a) mod 17" by simp
lift_definition times_gf17 :: "gf17 \<Rightarrow> gf17 \<Rightarrow> gf17" is "\<lambda>a b. (a * b) mod 17" by simp
lift_definition inverse_gf17 :: "gf17 \<Rightarrow> gf17" is "\<lambda>a. a ^ 15 mod 17" by simp
lift_definition divide_gf17 :: "gf17 \<Rightarrow> gf17 \<Rightarrow> gf17" is "\<lambda>a b. (a * (b ^ 15 mod 17)) mod 17"
  by simp

instance
proof
  fix a b c :: gf17
  show "a + b + c = a + (b + c)" by transfer (simp add: mod_simps ac_simps)
  show "a + b = b + a" by transfer (simp add: ac_simps)
  show "0 + a = a" by transfer simp
  show "- a + a = 0" by transfer (simp add: mod_simps)
  show "a - b = a + - b" by transfer (simp add: mod_simps)
  show "a * b * c = a * (b * c)" by transfer (simp add: mod_simps ac_simps)
  show "a * b = b * a" by transfer (simp add: ac_simps)
  show "1 * a = a" by transfer simp
  show "(a + b) * c = a * c + b * c" by transfer (simp add: mod_simps algebra_simps)
  show "(0::gf17) \<noteq> 1" by transfer simp
  show "a \<noteq> 0 \<Longrightarrow> inverse a * a = 1"
  proof transfer
    fix a :: int
    assume "a \<in> {0..<17}" and "a \<noteq> 0"
    then have "a = 1 \<or> a = 2 \<or> a = 3 \<or> a = 4 \<or> a = 5 \<or> a = 6 \<or> a = 7 \<or> a = 8
        \<or> a = 9 \<or> a = 10 \<or> a = 11 \<or> a = 12 \<or> a = 13 \<or> a = 14 \<or> a = 15 \<or> a = 16"
      by simp arith
    then show "a ^ 15 mod 17 * a mod 17 = 1" by (elim disjE) simp_all
  qed
  show "a div b = a * inverse b" by transfer (simp add: mod_simps)
  show "inverse (0::gf17) = 0" by transfer simp
qed

end

definition gf :: "int \<Rightarrow> gf17" where
  "gf n = Abs_gf17 (n mod 17)"

text \<open>The canonical encoding: 32 bytes, big-endian, of a value below 17.\<close>

definition encode17 :: "gf17 \<Rightarrow> Bytes32" where
  "encode17 a = replicate 31 0 @ [word_of_int (Rep_gf17 a)]"

definition decode17 :: "Bytes32 \<Rightarrow> gf17 option" where
  "decode17 bs =
     (if length bs = 32 \<and> take 31 bs = replicate 31 0 \<and> uint (bs ! 31) < 17
      then Some (Abs_gf17 (uint (bs ! 31))) else None)"

text \<open>Blobs of four field elements over the fourth roots of unity, extended to the
  eighth roots of unity; a cell holds two field elements, an extended blob has four
  cells.\<close>

definition P17 :: "gf17 domain_params" where
  "P17 = \<lparr> eval_domain = [gf 1, gf 4, gf 16, gf 13],
           ext_domain = [gf 1, gf 2, gf 4, gf 8, gf 16, gf 15, gf 13, gf 9],
           decode_fe = decode17,
           encode_fe = encode17 \<rparr>"

definition lib17 :: "(unit, unit) clib" where
  "lib17 = (fixedLib C_KZG_OK)
     \<lparr> BYTES_PER_BLOB := 128,
       FIELD_ELEMENTS_PER_CELL := 2,
       BYTES_PER_CELL := 64,
       CELLS_PER_EXT_BLOB := 4,
       compute_cells_and_proofs :=
         compute_cells_and_proofs_spec P17 (\<lambda>blob s. replicate 4 zeroBytes48) 2,
       cells_to_blob := cells_to_blob_spec P17,
       recover_all_cells := recover_all_cells_spec P17 2 4 \<rparr>"

definition blob17 :: Blob where
  "blob17 = concat (map encode17 [gf 3, gf 1, gf 4, gf 1])"

text \<open>The cells of the extended blob.\<close>

definition cells17 :: "Cell list" where
  "cells17 = the (extend_cells P17 2 blob17)"

text \<open>A curve for closed instances: both groups are the additive group of the field,
  a scalar acts by multiplication and the pairing is the product; a point is encoded
  in 48 bytes, big-endian. The setup holds four powers of the secret 5.\<close>

definition compress17 :: "gf17 \<Rightarrow> Bytes48" where
  "compress17 p = replicate 47 0 @ [word_of_int (Rep_gf17 p)]"

definition decompress17 :: "Bytes48 \<Rightarrow> gf17 option" where
  "decompress17 bs =
     (if length bs = 48 \<and> take 47 bs = replicate 47 0 \<and> uint (bs ! 47) < 17
      then Some (Abs_gf17 (uint (bs ! 47))) else None)"

definition G17 :: "(gf17, gf17, gf17, gf17) curve_params" where
  "G17 = \<lparr> g1_gen = 1, g2_gen = 1,
           smul1 = (\<lambda>a p. a * p), smul2 = (\<lambda>a q. a * q),
           pairing = (\<lambda>p q. p * q),
           compress = compress17, decompress = decompress17 \<rparr>"

definition kzgLib17 :: "((gf17, gf17) trusted_setup, unit) clib" where
  "kzgLib17 =
     \<lparr> BYTES_PER_BLOB = 128,
       BYTES_PER_FIELD_ELEMENT = 32,
       FIELD_ELEMENTS_PER_CELL = 2,
       BYTES_PER_CELL = 64,
       CELLS_PER_EXT_BLOB = 4,
       BYTES_PER_G1 = 48,
       BYTES_PER_G2 = 96,
       load_trusted_setup = (\<lambda>s g1 n1 g2 n2. (C_KZG_OK, s)),
       fopen = (\<lambda>name mode. Some ()),
       load_trusted_setup_file = (\<lambda>s fp. (C_KZG_OK, s)),
       free_trusted_setup = (\<lambda>s. s),
       blob_to_kzg_commitment = blob_to_kzg_commitment_spec P17 G17,
       compute_kzg_proof = compute_kzg_proof_spec P17 G17,
       compute_blob_kzg_proof = (\<lambda>blob c s. (C_KZG_ERROR, zeroBytes48)),
       verify_kzg_proof = verify_kzg_proof_spec P17 G17,
       verify_blob_kzg_proof = (\<lambda>blob c p s. (C_KZG_ERROR, False)),
       verify_blob_kzg_proof_batch = (\<lambda>blobs cs ps n s. (C_KZG_ERROR, False)),
       compute_cells_and_proofs = (\<lambda>withProofs blob s. (C_KZG_ERROR, [], [])),
       cells_to_blob = (\<lambda>cells. (C_KZG_ERROR, [])),
       recover_all_cells = (\<lambda>ids cells n s. (C_KZG_ERROR, [])),
       verify_cell_proof = (\<lambda>c i cell p s. (C_KZG_ERROR, False)),
       verify_cell_proof_batch = (\<lambda>cs nc rows cols cells ps n s. (C_KZG_ERROR, False)) \<rparr>"

definition kzgState17 :: "(gf17, gf17) trusted_setup global" where
  "kzgState17 = \<lparr> loaded = True, settings = setup_from G17 4 (gf 5) \<rparr>"

section \<open>Unfolding the interface functions\<close>

lemmas interface_defs =
  BlobToKZGCommitment_def ComputeKZGProof_def ComputeBlobKZGProof_def VerifyKZGProof_def
  VerifyBlobKZGProof_def VerifyBlobKZGProofBatch_def ComputeCells_def ComputeCellsAndProofs_def
  CellsToBlob_def RecoverAllCells_def VerifyCellProof_def VerifyCellProofBatch_def

section \<open>Length checks of the batch verifiers\<close>

text \<open>Claim C5. With the trusted setup loaded, \<open>VerifyBlobKZGProofBatch\<close> returns
  \<open>false\<close> and \<open>ErrBadArgs\<close> whenever the lengths of \<open>blobs\<close>, \<open>commitmentsBytes\<close> and
  \<open>proofsBytes\<close> are not all equal, and \<open>VerifyCellProofBatch\<close> returns \<open>false\<close> and
  \<open>ErrBadArgs\<close> whenever \<open>rowIndices\<close>, \<open>columnIndices\<close>, \<open>cells\<close> and \<open>proofsBytes\<close> do not
  all have the same length. Neither result depends on the library.\<close>

theorem batch_length_mismatch_BadArgs:
  assumes "loaded st"
  shows "(\<not> (length blobs = length commitmentsBytes \<and> length commitmentsBytes = length proofsBytes)
            \<longrightarrow> VerifyBlobKZGProofBatch lib st blobs commitmentsBytes proofsBytes
                  = Returned (False, Some ErrBadArgs))
       \<and> (\<not> (length rowIndices = length columnIndices \<and> length columnIndices = length cells
                \<and> length cells = length proofsBytes')
            \<longrightarrow> VerifyCellProofBatch lib st commitmentsBytes' rowIndices columnIndices cells
                    proofsBytes'
                  = Returned (False, Some ErrBadArgs))"
  using assms by (auto simp: VerifyBlobKZGProofBatch_def VerifyCellProofBatch_def)

theorem batch_length_mismatch_BadArgs_witness:
  "loaded loadedState
   \<and> \<not> (length [replicate 131072 (0::byte)] = length ([]::Bytes48 list)
          \<and> length ([]::Bytes48 list) = length ([]::Bytes48 list))
   \<and> VerifyBlobKZGProofBatch (fixedLib C_KZG_OK) loadedState [replicate 131072 0] [] []
       = Returned (False, Some ErrBadArgs)
   \<and> \<not> (length [0::64 word] = length [1::64 word]
          \<and> length [1::64 word] = length [replicate 64 zeroBytes32]
          \<and> length [replicate 64 zeroBytes32] = length ([]::Bytes48 list))
   \<and> VerifyCellProofBatch (fixedLib C_KZG_OK) loadedState [zeroBytes48] [0] [1]
         [replicate 64 zeroBytes32] []
       = Returned (False, Some ErrBadArgs)"
  using batch_length_mismatch_BadArgs [where st = loadedState and lib = "fixedLib C_KZG_OK"
      and blobs = "[replicate 131072 0]" and commitmentsBytes = "[]" and proofsBytes = "[]"
      and rowIndices = "[0]" and columnIndices = "[1]" and cells = "[replicate 64 zeroBytes32]"
      and proofsBytes' = "[]" and commitmentsBytes' = "[zeroBytes48]"]
  by (simp add: loadedState_def)

section \<open>Use before load and double load\<close>

text \<open>Claim C1, as the code has it. The claim says that an operation invoked before the
  trusted setup is loaded, and a second \<open>LoadTrustedSetup\<close> or \<open>LoadTrustedSetupFile\<close>,
  return a typed error and never panic. The code guards every interface function with
  \<open>if !loaded { panic(...) }\<close> and both loaders with \<open>if loaded { panic(...) }\<close>: at the
  inputs below nothing is returned, the call panics.\<close>

theorem use_before_load_counterexample:
  "BlobToKZGCommitment (fixedLib C_KZG_OK) unloadedState (Some (replicate 131072 0))
     = Panic NotLoaded
   \<and> LoadTrustedSetup (fixedLib C_KZG_OK) loadedState (replicate 48 0) (replicate 96 0)
     = Panic AlreadyLoaded
   \<and> LoadTrustedSetupFile (fixedLib C_KZG_OK) loadedState ''trusted_setup.txt''
     = Panic AlreadyLoaded"
  by (simp add: BlobToKZGCommitment_def LoadTrustedSetup_def LoadTrustedSetupFile_def
      unloadedState_def loadedState_def)

text \<open>Claim C1, amended. While the trusted setup is not loaded, \<open>FreeTrustedSetup\<close> and
  each of the twelve interface functions that use the setup panic with "trusted setup
  isn't loaded", whatever their arguments and whatever the library; while it is loaded,
  \<open>LoadTrustedSetup\<close> and \<open>LoadTrustedSetupFile\<close> panic with "trusted setup is already
  loaded".\<close>

theorem use_before_load_panics:
  "(\<not> loaded st \<longrightarrow>
      FreeTrustedSetup lib st = Panic NotLoaded
    \<and> BlobToKZGCommitment lib st blob = Panic NotLoaded
    \<and> ComputeKZGProof lib st blob zBytes = Panic NotLoaded
    \<and> ComputeBlobKZGProof lib st blob commitmentBytes = Panic NotLoaded
    \<and> VerifyKZGProof lib st commitmentBytes zBytes yBytes proofBytes = Panic NotLoaded
    \<and> VerifyBlobKZGProof lib st blob commitmentBytes proofBytes = Panic NotLoaded
    \<and> VerifyBlobKZGProofBatch lib st blobs commitmentsBytes proofsBytes = Panic NotLoaded
    \<and> ComputeCells lib st blob = Panic NotLoaded
    \<and> ComputeCellsAndProofs lib st blob = Panic NotLoaded
    \<and> CellsToBlob lib st cells = Panic NotLoaded
    \<and> RecoverAllCells lib st cellIds cellList = Panic NotLoaded
    \<and> VerifyCellProof lib st commitmentBytes cellId cell proofBytes = Panic NotLoaded
    \<and> VerifyCellProofBatch lib st commitmentsBytes rowIndices columnIndices cellList proofsBytes
        = Panic NotLoaded)
   \<and> (loaded st \<longrightarrow>
      LoadTrustedSetup lib st g1Bytes g2Bytes = Panic AlreadyLoaded
    \<and> LoadTrustedSetupFile lib st trustedSetupFile = Panic AlreadyLoaded)"
  by (simp add: interface_defs FreeTrustedSetup_def LoadTrustedSetup_def LoadTrustedSetupFile_def)

theorem use_before_load_panics_witness:
  "\<not> loaded unloadedState
   \<and> VerifyKZGProof (fixedLib C_KZG_OK) unloadedState zeroBytes48 zeroBytes32 zeroBytes32 zeroBytes48
       = Panic NotLoaded
   \<and> loaded loadedState
   \<and> LoadTrustedSetup (fixedLib C_KZG_OK) loadedState [] [] = Panic AlreadyLoaded"
  using use_before_load_panics [where st = unloadedState and lib = "fixedLib C_KZG_OK"
      and commitmentBytes = zeroBytes48 and zBytes = zeroBytes32 and yBytes = zeroBytes32
      and proofBytes = zeroBytes48]
    use_before_load_panics [where st = loadedState and lib = "fixedLib C_KZG_OK"
      and g1Bytes = "[]" and g2Bytes = "[]"]
  by (simp add: unloadedState_def loadedState_def)

section \<open>The empty batch\<close>

text \<open>Claim C4. With the trusted setup loaded, \<open>VerifyBlobKZGProofBatch\<close> applied to
  empty slices returns \<open>true\<close> and no error: the length check passes, the library is
  called with \<open>n = 0\<close>, and the library, as the specification describes it, answers
  \<open>C_KZG_OK\<close> with the result \<open>true\<close>, which the binding hands on.\<close>

theorem empty_batch_true:
  assumes "loaded st"
    and "verify_blob_kzg_proof_batch lib = verify_blob_kzg_proof_batch_spec check"
  shows "VerifyBlobKZGProofBatch lib st [] [] [] = Returned (True, None)"
  using assms by (simp add: VerifyBlobKZGProofBatch_def verify_blob_kzg_proof_batch_spec_def)

theorem empty_batch_true_witness:
  "loaded loadedState
   \<and> verify_blob_kzg_proof_batch
        ((fixedLib C_KZG_ERROR)\<lparr>verify_blob_kzg_proof_batch :=
            verify_blob_kzg_proof_batch_spec (\<lambda>blobs cs ps n s. (C_KZG_ERROR, False))\<rparr>)
      = verify_blob_kzg_proof_batch_spec (\<lambda>blobs cs ps n s. (C_KZG_ERROR, False))
   \<and> VerifyBlobKZGProofBatch
        ((fixedLib C_KZG_ERROR)\<lparr>verify_blob_kzg_proof_batch :=
            verify_blob_kzg_proof_batch_spec (\<lambda>blobs cs ps n s. (C_KZG_ERROR, False))\<rparr>)
        loadedState [] [] []
      = Returned (True, None)"
  using empty_batch_true [where st = loadedState
      and lib = "(fixedLib C_KZG_ERROR)\<lparr>verify_blob_kzg_proof_batch :=
            verify_blob_kzg_proof_batch_spec (\<lambda>blobs cs ps n s. (C_KZG_ERROR, False))\<rparr>"
      and check = "\<lambda>blobs cs ps n s. (C_KZG_ERROR, False)"]
  by (simp add: loadedState_def)

section \<open>Nil blob pointers\<close>

text \<open>Claim C9. With the trusted setup loaded and a nil blob pointer,
  \<open>BlobToKZGCommitment\<close>, \<open>ComputeKZGProof\<close>, \<open>ComputeBlobKZGProof\<close> and
  \<open>VerifyBlobKZGProof\<close> return \<open>ErrBadArgs\<close> with zero-valued results; the results do not
  mention the library, so it is not consulted. \<open>ComputeCells\<close> and
  \<open>ComputeCellsAndProofs\<close> have no nil check: they pass the nil pointer on, and what
  they return is what the library answers to it.\<close>

theorem nil_blob_BadArgs:
  assumes "loaded st"
  shows "BlobToKZGCommitment lib st None = Returned (zeroBytes48, Some ErrBadArgs)
       \<and> ComputeKZGProof lib st None zBytes = Returned (zeroBytes48, zeroBytes32, Some ErrBadArgs)
       \<and> ComputeBlobKZGProof lib st None commitmentBytes = Returned (zeroBytes48, Some ErrBadArgs)
       \<and> VerifyBlobKZGProof lib st None commitmentBytes proofBytes
           = Returned (False, Some ErrBadArgs)
       \<and> ComputeCells lib st None
           = (case compute_cells_and_proofs lib False None (settings st) of
                (ret, cells, proofs) \<Rightarrow>
                  if ret = C_KZG_OK then Returned (cells, None)
                  else Returned (zeroCells lib, Some (makeErrorFromRet ret)))
       \<and> ComputeCellsAndProofs lib st None
           = (case compute_cells_and_proofs lib True None (settings st) of
                (ret, cells, proofs) \<Rightarrow>
                  if ret = C_KZG_OK then Returned (cells, proofs, None)
                  else Returned (zeroCells lib, zeroProofs lib, Some (makeErrorFromRet ret)))"
  using assms by (simp add: interface_defs split: prod.splits)

theorem nil_blob_BadArgs_witness:
  "loaded loadedState
   \<and> BlobToKZGCommitment (fixedLib C_KZG_OK) loadedState None
       = Returned (zeroBytes48, Some ErrBadArgs)
   \<and> VerifyBlobKZGProof (fixedLib C_KZG_OK) loadedState None zeroBytes48 zeroBytes48
       = Returned (False, Some ErrBadArgs)
   \<and> ComputeCells (fixedLib C_KZG_OK) loadedState None
       = Returned (replicate 128 (replicate 64 zeroBytes32), None)
   \<and> ComputeCellsAndProofs (fixedLib C_KZG_OK) loadedState None
       = Returned (replicate 128 (replicate 64 zeroBytes32), replicate 128 zeroBytes48, None)"
  using nil_blob_BadArgs [where st = loadedState and lib = "fixedLib C_KZG_OK"
      and commitmentBytes = zeroBytes48 and proofBytes = zeroBytes48]
  by (simp add: loadedState_def fixedLib_def)

section \<open>The errors an interface function returns\<close>

lemma makeErrorFromRet_bindingError:
  "ret \<noteq> C_KZG_OK \<Longrightarrow> bindingError (Some (makeErrorFromRet ret))"
  by (cases ret) simp_all

lemma BlobToKZGCommitment_error:
  "loaded st \<Longrightarrow> \<exists>v e. BlobToKZGCommitment lib st blob = Returned (v, e) \<and> bindingError e"
  by (auto simp add: BlobToKZGCommitment_def makeErrorFromRet_bindingError split: prod.splits)

lemma ComputeKZGProof_error:
  "loaded st \<Longrightarrow>
   \<exists>v w e. ComputeKZGProof lib st blob zBytes = Returned (v, w, e) \<and> bindingError e"
  by (auto simp add: ComputeKZGProof_def makeErrorFromRet_bindingError split: prod.splits)

lemma ComputeBlobKZGProof_error:
  "loaded st \<Longrightarrow>
   \<exists>v e. ComputeBlobKZGProof lib st blob commitmentBytes = Returned (v, e) \<and> bindingError e"
  by (auto simp add: ComputeBlobKZGProof_def makeErrorFromRet_bindingError split: prod.splits)

lemma VerifyKZGProof_error:
  "loaded st \<Longrightarrow>
   \<exists>v e. VerifyKZGProof lib st commitmentBytes zBytes yBytes proofBytes = Returned (v, e)
     \<and> bindingError e"
  by (auto simp add: VerifyKZGProof_def makeErrorFromRet_bindingError split: prod.splits)

lemma VerifyBlobKZGProof_error:
  "loaded st \<Longrightarrow>
   \<exists>v e. VerifyBlobKZGProof lib st blob commitmentBytes proofBytes = Returned (v, e)
     \<and> bindingError e"
  by (auto simp add: VerifyBlobKZGProof_def makeErrorFromRet_bindingError split: prod.splits)

lemma VerifyBlobKZGProofBatch_error:
  "loaded st \<Longrightarrow>
   \<exists>v e. VerifyBlobKZGProofBatch lib st blobs commitmentsBytes proofsBytes = Returned (v, e)
     \<and> bindingError e"
  by (auto simp add: VerifyBlobKZGProofBatch_def makeErrorFromRet_bindingError split: prod.splits)

lemma ComputeCells_error:
  "loaded st \<Longrightarrow> \<exists>v e. ComputeCells lib st blob = Returned (v, e) \<and> bindingError e"
  by (auto simp add: ComputeCells_def makeErrorFromRet_bindingError split: prod.splits)

lemma ComputeCellsAndProofs_error:
  "loaded st \<Longrightarrow>
   \<exists>v w e. ComputeCellsAndProofs lib st blob = Returned (v, w, e) \<and> bindingError e"
  by (auto simp add: ComputeCellsAndProofs_def makeErrorFromRet_bindingError split: prod.splits)

lemma CellsToBlob_error:
  "loaded st \<Longrightarrow> \<exists>v e. CellsToBlob lib st cells = Returned (v, e) \<and> bindingError e"
  by (auto simp add: CellsToBlob_def makeErrorFromRet_bindingError split: prod.splits)

lemma RecoverAllCells_error:
  "loaded st \<Longrightarrow>
   \<exists>v e. RecoverAllCells lib st cellIds cellList = Returned (v, e) \<and> bindingError e"
  by (auto simp add: RecoverAllCells_def makeErrorFromRet_bindingError split: prod.splits)

lemma VerifyCellProof_error:
  "loaded st \<Longrightarrow>
   \<exists>v e. VerifyCellProof lib st commitmentBytes cellId cell proofBytes = Returned (v, e)
     \<and> bindingError e"
  by (auto simp add: VerifyCellProof_def makeErrorFromRet_bindingError split: prod.splits)

lemma VerifyCellProofBatch_error:
  "loaded st \<Longrightarrow>
   \<exists>v e. VerifyCellProofBatch lib st commitmentsBytes rowIndices columnIndices cellList
           proofsBytes = Returned (v, e) \<and> bindingError e"
  by (auto simp add: VerifyCellProofBatch_def Let_def makeErrorFromRet_bindingError split: prod.splits)

lemma LoadTrustedSetup_error:
  "\<not> loaded st \<Longrightarrow> length g1Bytes mod BYTES_PER_G1 lib = 0
   \<Longrightarrow> length g2Bytes mod BYTES_PER_G2 lib = 0
   \<Longrightarrow> \<exists>e st'. LoadTrustedSetup lib st g1Bytes g2Bytes = Returned (e, st') \<and> bindingError e"
  by (auto simp add: LoadTrustedSetup_def makeErrorFromRet_bindingError split: prod.splits)

lemma LoadTrustedSetupFile_error:
  "\<not> loaded st \<Longrightarrow> fopen lib trustedSetupFile ''r'' \<noteq> None
   \<Longrightarrow> \<exists>e st'. LoadTrustedSetupFile lib st trustedSetupFile = Returned (e, st')
         \<and> bindingError e"
  by (auto simp add: LoadTrustedSetupFile_def makeErrorFromRet_bindingError split: prod.splits)

text \<open>Claim C8, as the code has it. The claim says that every error a public operation
  returns is one of the three typed errors and that no failure takes another channel.
  \<open>makeErrorFromRet\<close> ends with
  \<open>fmt.Errorf("unexpected error from c-library: %v", ret)\<close>: a return code that is
  none of the named ones reaches the caller as a fourth kind of error; and a call
  before the setup is loaded panics instead of returning.\<close>

theorem interface_errors_counterexample:
  "VerifyKZGProof (fixedLib (C_KZG_OTHER 4)) loadedState zeroBytes48 zeroBytes32 zeroBytes32
       zeroBytes48
     = Returned (False, Some (UnexpectedCLibraryError (C_KZG_OTHER 4)))
   \<and> \<not> typedError (UnexpectedCLibraryError (C_KZG_OTHER 4))
   \<and> CellsToBlob (fixedLib C_KZG_OK) unloadedState (replicate 128 (replicate 64 zeroBytes32))
     = Panic NotLoaded"
  by (simp add: VerifyKZGProof_def CellsToBlob_def fixedLib_def loadedState_def
      unloadedState_def typedError_def)

text \<open>Claim C8, amended. While the trusted setup is loaded, each of the twelve interface
  functions returns to its caller, and the error it returns is nil, \<open>ErrBadArgs\<close>,
  \<open>ErrError\<close> or \<open>ErrMalloc\<close>, or, for a library return code that is none of
  \<open>C_KZG_OK\<close>, \<open>C_KZG_BADARGS\<close>, \<open>C_KZG_ERROR\<close>, \<open>C_KZG_MALLOC\<close>, the formatted error
  "unexpected error from c-library". The same holds for \<open>LoadTrustedSetup\<close> and
  \<open>LoadTrustedSetupFile\<close> when no setup is loaded and their own checks pass (lengths
  that are multiples of the point sizes; a file that opens).\<close>

theorem interface_errors:
  "(loaded st \<longrightarrow>
      (\<exists>v e. BlobToKZGCommitment lib st blob = Returned (v, e) \<and> bindingError e)
    \<and> (\<exists>v w e. ComputeKZGProof lib st blob zBytes = Returned (v, w, e) \<and> bindingError e)
    \<and> (\<exists>v e. ComputeBlobKZGProof lib st blob commitmentBytes = Returned (v, e) \<and> bindingError e)
    \<and> (\<exists>v e. VerifyKZGProof lib st commitmentBytes zBytes yBytes proofBytes = Returned (v, e)
           \<and> bindingError e)
    \<and> (\<exists>v e. VerifyBlobKZGProof lib st blob commitmentBytes proofBytes = Returned (v, e)
           \<and> bindingError e)
    \<and> (\<exists>v e. VerifyBlobKZGProofBatch lib st blobs commitmentsBytes proofsBytes = Returned (v, e)
           \<and> bindingError e)
    \<and> (\<exists>v e. ComputeCells lib st blob = Returned (v, e) \<and> bindingError e)
    \<and> (\<exists>v w e. ComputeCellsAndProofs lib st blob = Returned (v, w, e) \<and> bindingError e)
    \<and> (\<exists>v e. CellsToBlob lib st cells = Returned (v, e) \<and> bindingError e)
    \<and> (\<exists>v e. RecoverAllCells lib st cellIds cellList = Returned (v, e) \<and> bindingError e)
    \<and> (\<exists>v e. VerifyCellProof lib st commitmentBytes cellId cell proofBytes = Returned (v, e)
           \<and> bindingError e)
    \<and> (\<exists>v e. VerifyCellProofBatch lib st commitmentsBytes rowIndices columnIndices cellList
                 proofsBytes = Returned (v, e) \<and> bindingError e))
   \<and> (\<not> loaded st \<and> length g1Bytes mod BYTES_PER_G1 lib = 0
        \<and> length g2Bytes mod BYTES_PER_G2 lib = 0 \<longrightarrow>
      (\<exists>e st'. LoadTrustedSetup lib st g1Bytes g2Bytes = Returned (e, st') \<and> bindingError e))
   \<and> (\<not> loaded st \<and> fopen lib trustedSetupFile ''r'' \<noteq> None \<longrightarrow>
      (\<exists>e st'. LoadTrustedSetupFile lib st trustedSetupFile = Returned (e, st') \<and> bindingError e))"
proof (intro conjI impI)
  assume "\<not> loaded st \<and> length g1Bytes mod BYTES_PER_G1 lib = 0
    \<and> length g2Bytes mod BYTES_PER_G2 lib = 0"
  then show "\<exists>e st'. LoadTrustedSetup lib st g1Bytes g2Bytes = Returned (e, st') \<and> bindingError e"
    by (intro LoadTrustedSetup_error) simp_all
next
  assume "\<not> loaded st \<and> fopen lib trustedSetupFile ''r'' \<noteq> None"
  then show "\<exists>e st'. LoadTrustedSetupFile lib st trustedSetupFile = Returned (e, st')
      \<and> bindingError e"
    by (intro LoadTrustedSetupFile_error) simp_all
qed (erule BlobToKZGCommitment_error ComputeKZGProof_error ComputeBlobKZGProof_error
    VerifyKZGProof_error VerifyBlobKZGProof_error VerifyBlobKZGProofBatch_error
    ComputeCells_error ComputeCellsAndProofs_error CellsToBlob_error RecoverAllCells_error
    VerifyCellProof_error VerifyCellProofBatch_error)+

theorem interface_errors_witness:
  "loaded loadedState
   \<and> RecoverAllCells (fixedLib C_KZG_MALLOC) loadedState [] []
       = Returned (replicate 128 (replicate 64 zeroBytes32), Some ErrMalloc)
   \<and> bindingError (Some ErrMalloc)
   \<and> \<not> loaded unloadedState
   \<and> length (replicate 48 (0::byte)) mod BYTES_PER_G1 (fixedLib C_KZG_BADARGS) = 0
   \<and> length (replicate 96 (0::byte)) mod BYTES_PER_G2 (fixedLib C_KZG_BADARGS) = 0
   \<and> LoadTrustedSetup (fixedLib C_KZG_BADARGS) unloadedState (replicate 48 0) (replicate 96 0)
       = Returned (Some ErrBadArgs, unloadedState)
   \<and> fopen (fixedLib C_KZG_ERROR) ''trusted_setup.txt'' ''r'' \<noteq> None
   \<and> LoadTrustedSetupFile (fixedLib C_KZG_ERROR) unloadedState ''trusted_setup.txt''
       = Returned (Some ErrError, unloadedState)"
  using interface_errors [where st = loadedState and lib = "fixedLib C_KZG_MALLOC"
      and cellIds = "[]" and cellList = "[]"]
    interface_errors [where st = unloadedState and lib = "fixedLib C_KZG_BADARGS"
      and g1Bytes = "replicate 48 0" and g2Bytes = "replicate 96 0"]
    interface_errors [where st = unloadedState and lib = "fixedLib C_KZG_ERROR"
      and trustedSetupFile = "''trusted_setup.txt''"]
  by (simp add: loadedState_def unloadedState_def fixedLib_def RecoverAllCells_def
      LoadTrustedSetup_def LoadTrustedSetupFile_def zeroCells_def)

section \<open>UnmarshalText\<close>

lemma HasPrefix_0x [simp]: "HasPrefix (CHR ''0'' # CHR ''x'' # s) ''0x''"
  by (simp add: HasPrefix_def)

lemma fromHexChar_x: "fromHexChar CHR ''x'' = None"
  by (simp add: fromHexChar_def)

lemma fromHexChar_0: "fromHexChar CHR ''0'' = Some 0"
  by (simp add: fromHexChar_def)

lemma list_update_replicate_same: "(replicate n x)[i := x] = replicate n x"
  by (cases "i < n") (simp_all add: list_update_same_conv list_update_beyond)

lemma length_hexBytes: "length src = 2 * k \<Longrightarrow> length (hexBytes src) = k"
proof (induction src arbitrary: k rule: hexBytes.induct)
  case (1 p q src)
  then obtain k' where "k = Suc k'" by (cases k) auto
  with 1 show ?case by simp
qed auto

lemma hex_Decode_all_hex:
  "\<forall>c \<in> set src. fromHexChar c \<noteq> None \<Longrightarrow> length src = 2 * k \<Longrightarrow> i + k \<le> length dst
   \<Longrightarrow> hex_Decode dst i src
       = Returned (take i dst @ hexBytes src @ drop (i + k) dst, i + k, None)"
proof (induction dst i src arbitrary: k rule: hex_Decode.induct)
  case (1 dst i p q src)
  then obtain k' where k: "k = Suc k'" by (cases k) auto
  from 1(2) obtain a b where ab: "fromHexChar p = Some a" "fromHexChar q = Some b" by auto
  have i: "i < length dst" using 1(4) k by simp
  have "hex_Decode (dst[i := of_nat (a * 16 + b)]) (i + 1) src
      = Returned (take (i + 1) (dst[i := of_nat (a * 16 + b)]) @ hexBytes src
          @ drop (i + 1 + k') (dst[i := of_nat (a * 16 + b)]), i + 1 + k', None)"
    using 1(2-4) k by (intro 1(1) [OF ab i]) auto
  moreover have "take (i + 1) (dst[i := of_nat (a * 16 + b)]) = take i dst @ [of_nat (a * 16 + b)]"
    using i by (simp add: take_Suc_conv_app_nth)
  ultimately show ?case using ab i k by simp
next
  case (2 dst i p)
  then show ?case by simp
next
  case (3 dst i)
  then show ?case by simp
qed

lemma hex_Decode_non_hex:
  "\<exists>c \<in> set src. fromHexChar c = None \<Longrightarrow> length src = 2 * k \<Longrightarrow> i + k \<le> length dst
   \<Longrightarrow> \<exists>dst' j c. hex_Decode dst i src = Returned (dst', j, Some (InvalidByteError c))
         \<and> c \<in> set src \<and> fromHexChar c = None"
proof (induction dst i src arbitrary: k rule: hex_Decode.induct)
  case (1 dst i p q src)
  then obtain k' where k: "k = Suc k'" by (cases k) auto
  show ?case
  proof (cases "fromHexChar p")
    case None
    then show ?thesis by simp
  next
    case (Some a)
    note a = this
    show ?thesis
    proof (cases "fromHexChar q")
      case None
      then show ?thesis using a by simp
    next
      case (Some b)
      have i: "i < length dst" using 1(4) k by simp
      have "\<exists>c \<in> set src. fromHexChar c = None" using 1(2) a Some by auto
      then have "\<exists>dst' j c. hex_Decode (dst[i := of_nat (a * 16 + b)]) (i + 1) src
            = Returned (dst', j, Some (InvalidByteError c)) \<and> c \<in> set src \<and> fromHexChar c = None"
        using 1(3,4) k by (intro 1(1) [OF a Some i, of k']) auto
      then show ?thesis using a Some i by auto
    qed
  qed
next
  case (2 dst i p)
  then show ?case by simp
next
  case (3 dst i)
  then show ?case by simp
qed

lemma UnmarshalText_bytes_wrong_length:
  "length (strip0x input) \<noteq> 2 * length b
   \<Longrightarrow> UnmarshalText_bytes b input = Returned (b, Some ErrBadArgs)"
  by (simp add: UnmarshalText_bytes_def strip0x_def)

lemma UnmarshalText_bytes_hex:
  assumes "length (strip0x input) = 2 * length b"
    and "\<forall>c \<in> set (strip0x input). fromHexChar c \<noteq> None"
  shows "UnmarshalText_bytes b input = Returned (hexBytes (strip0x input), None)"
proof -
  have "hex_Decode b 0 (strip0x input)
      = Returned (take 0 b @ hexBytes (strip0x input) @ drop (0 + length b) b, 0 + length b, None)"
    using assms by (intro hex_Decode_all_hex) auto
  then show ?thesis using assms(1) by (simp add: UnmarshalText_bytes_def strip0x_def)
qed

lemma UnmarshalText_bytes_non_hex:
  assumes "length (strip0x input) = 2 * length b"
    and "\<exists>c \<in> set (strip0x input). fromHexChar c = None"
  shows "\<exists>b' c. UnmarshalText_bytes b input = Returned (b', Some (InvalidByteError c))
           \<and> c \<in> set (strip0x input) \<and> fromHexChar c = None"
proof -
  obtain dst' j c where
    "hex_Decode b 0 (strip0x input) = Returned (dst', j, Some (InvalidByteError c))"
    "c \<in> set (strip0x input)" "fromHexChar c = None"
    using hex_Decode_non_hex [OF assms(2) assms(1), of 0 b] by auto
  then show ?thesis using assms(1) by (auto simp add: UnmarshalText_bytes_def strip0x_def)
qed

text \<open>Claim C10, evaluated where the code leaves it. The claim says that a right-length
  input containing a non-hexadecimal character yields a hex decoding error. That holds
  for \<open>Bytes32\<close>, \<open>Bytes48\<close> and \<open>Blob\<close> (\<open>UnmarshalText_bytes_non_hex\<close>), whose bodies
  strip the prefix once. \<open>Cell.UnmarshalText\<close> hands each chunk of 64 characters to
  \<open>Bytes32.UnmarshalText\<close>, which strips a "0x" again: a chunk that begins with "0x" is
  then two characters short and is refused with \<open>ErrBadArgs\<close>. The input is "0x"
  followed by 4096 characters, the first two of them "0x": \<open>Cell.UnmarshalText\<close>
  returns \<open>ErrBadArgs\<close>, while \<open>Bytes32.UnmarshalText\<close> on the input of the same shape,
  "0x" followed by 64 characters that begin with "0x", returns the hex decoding error
  for the byte \<open>x\<close>.\<close>

theorem Cell_UnmarshalText_inner_prefix:
  "Cell_UnmarshalText (fixedLib C_KZG_OK) (replicate 64 zeroBytes32)
       (''0x0x'' @ replicate 4094 CHR ''0'')
     = Returned (replicate 64 zeroBytes32, Some ErrBadArgs)
   \<and> Bytes32_UnmarshalText zeroBytes32 (''0x0x'' @ replicate 62 CHR ''0'')
     = Returned (zeroBytes32, Some (InvalidByteError CHR ''x''))"
  apply (rule conjI)
   apply (simp add: Cell_UnmarshalText_def fixedLib_def)
   apply (subst Cell_loop.simps)
   apply (simp add: Bytes32_UnmarshalText_def UnmarshalText_bytes_def zeroBytes32_def
      list_update_replicate_same)
  apply (simp add: Bytes32_UnmarshalText_def UnmarshalText_bytes_def zeroBytes32_def
      fromHexChar_x fromHexChar_0)
  done

section \<open>Interpolation\<close>

text \<open>The interpolating polynomial takes the given values, and two coefficient lists of
  the same length that agree on as many distinct points are equal.\<close>

lemma peval_padd: "peval (padd p q) x = peval p x + peval q x"
  by (induction p q rule: padd.induct) (simp_all add: algebra_simps)

lemma length_padd: "length (padd p q) = max (length p) (length q)"
  by (induction p q rule: padd.induct) simp_all

lemma peval_smult: "peval (smult c p) x = c * peval p x"
  by (induction p) (simp_all add: smult_def algebra_simps)

lemma length_smult: "length (smult c p) = length p"
  by (simp add: smult_def)

lemma peval_mul_linear: "peval (mul_linear t p) x = (x - t) * peval p x"
  by (simp add: mul_linear_def peval_padd peval_smult algebra_simps)

lemma length_mul_linear: "length (mul_linear t p) = Suc (length p)"
  by (simp add: mul_linear_def length_padd length_smult)

lemma length_vanish: "length (vanish ts) = Suc (length ts)"
  by (induction ts) (simp_all add: length_mul_linear)

lemma peval_vanish: "peval (vanish ts) x = prod_list (map (\<lambda>t. x - t) ts)"
  by (induction ts) (simp_all add: peval_mul_linear)

lemma peval_vanish_root: "x \<in> set ts \<Longrightarrow> peval (vanish ts) x = 0"
  by (induction ts) (auto simp add: peval_mul_linear)

lemma peval_vanish_nonroot: "x \<notin> set ts \<Longrightarrow> peval (vanish ts) (x::'a::idom) \<noteq> 0"
  by (induction ts) (auto simp add: peval_mul_linear)

lemma length_interp: "length vs = length xs \<Longrightarrow> length (interp xs vs) = length xs"
proof (induction xs vs rule: interp.induct)
  case (1 x xs v vs)
  then show ?case by (simp add: Let_def length_padd length_smult length_vanish)
qed simp_all

lemma peval_interp:
  "distinct xs \<Longrightarrow> length vs = length xs \<Longrightarrow> i < length xs
   \<Longrightarrow> peval (interp xs vs) (xs ! i) = vs ! i"
proof (induction xs vs arbitrary: i rule: interp.induct)
  case (1 x xs v vs)
  show ?case
  proof (cases i)
    case 0
    have "peval (vanish xs) x \<noteq> 0" using 1(2) by (intro peval_vanish_nonroot) simp
    then show ?thesis using 0 by (simp add: Let_def peval_padd peval_smult)
  next
    case (Suc j)
    then have j: "j < length xs" using 1(4) by simp
    have "peval (interp xs vs) (xs ! j) = vs ! j" using 1(2,3) j by (intro 1(1)) simp_all
    moreover have "peval (vanish xs) (xs ! j) = 0" using j by (intro peval_vanish_root) simp
    ultimately show ?thesis using Suc by (simp add: Let_def peval_padd peval_smult)
  qed
qed simp_all

lemma peval_synth_div: "peval p x = (x - a) * peval (synth_div p a) x + peval p a"
proof (induction p a rule: synth_div.induct)
  case (1 c d ds a)
  define r where "r = d # ds"
  have ih: "peval r x = (x - a) * peval (synth_div r a) x + peval r a"
    using 1 by (simp add: r_def)
  have "peval (c # r) x = c + x * ((x - a) * peval (synth_div r a) x + peval r a)"
    using ih by simp
  also have "\<dots> = (x - a) * peval (peval r a # synth_div r a) x + peval (c # r) a"
    by (simp add: algebra_simps)
  also have "peval r a # synth_div r a = synth_div (c # r) a"
    by (simp add: r_def)
  finally show ?case by (simp add: r_def)
qed simp_all

lemma length_synth_div: "length (synth_div p a) = length p - 1"
  by (induction p a rule: synth_div.induct) simp_all

lemma synth_div_zero:
  "\<forall>c \<in> set (synth_div p a). c = 0 \<Longrightarrow> peval p a = 0 \<Longrightarrow> \<forall>c \<in> set p. c = 0"
proof (induction p a rule: synth_div.induct)
  case (1 c d ds a)
  then have "\<forall>c \<in> set (d # ds). c = 0" by simp
  moreover have "peval (d # ds) a = 0" using 1(2) by simp
  ultimately show ?case using 1(3) by simp
qed simp_all

lemma roots_zero:
  fixes p :: "'a::idom list"
  shows "distinct rs \<Longrightarrow> length p \<le> length rs \<Longrightarrow> \<forall>r \<in> set rs. peval p r = 0
    \<Longrightarrow> \<forall>c \<in> set p. c = 0"
proof (induction rs arbitrary: p)
  case Nil
  then show ?case by simp
next
  case (Cons r rs)
  have "\<forall>r' \<in> set rs. peval (synth_div p r) r' = 0"
  proof
    fix r' assume r': "r' \<in> set rs"
    then have "peval p r' = 0" "peval p r = 0" using Cons(4) by simp_all
    then have "(r' - r) * peval (synth_div p r) r' = 0" using peval_synth_div [of p r' r] by simp
    moreover have "r' \<noteq> r" using Cons(2) r' by auto
    ultimately show "peval (synth_div p r) r' = 0" by simp
  qed
  moreover have "length (synth_div p r) \<le> length rs" using Cons(3) by (simp add: length_synth_div)
  moreover have "distinct rs" using Cons(2) by simp
  ultimately have "\<forall>c \<in> set (synth_div p r). c = 0" by (intro Cons(1))
  then show ?case using Cons(4) by (intro synth_div_zero [of p r]) simp_all
qed

lemma padd_diff_zero:
  "length p = length q \<Longrightarrow> \<forall>c \<in> set (padd p (smult (- 1) q)). c = 0 \<Longrightarrow> p = q"
  by (induction p q rule: list_induct2) (simp_all add: smult_def)

lemma poly_unique:
  fixes p q :: "'a::idom list"
  assumes "distinct rs" "length p = length q" "length p \<le> length rs"
    and "\<forall>r \<in> set rs. peval p r = peval q r"
  shows "p = q"
proof -
  have "\<forall>c \<in> set (padd p (smult (- 1) q)). c = 0"
    using assms by (intro roots_zero [of rs]) (simp_all add: length_padd length_smult peval_padd peval_smult)
  then show ?thesis using assms(2) by (rule padd_diff_zero [rotated])
qed

section \<open>Chunks and decoded lists\<close>

lemma concat_chunks: "0 < n \<Longrightarrow> concat (chunks n xs) = xs"
proof (induction n xs rule: chunks.induct)
  case (1 n xs)
  show ?case
  proof (cases "xs = []")
    case True
    then show ?thesis by (simp add: chunks.simps)
  next
    case False
    then have "concat (chunks n (drop n xs)) = drop n xs" using 1 by simp
    then show ?thesis using False 1(2) by (subst chunks.simps) simp
  qed
qed

lemma chunks_concat:
  "0 < n \<Longrightarrow> \<forall>xs \<in> set xss. length xs = n \<Longrightarrow> chunks n (concat xss) = xss"
proof (induction xss)
  case Nil
  then show ?case by (simp add: chunks.simps)
next
  case (Cons xs xss)
  then have "xs \<noteq> []" by auto
  then show ?case using Cons by (subst chunks.simps) simp
qed

lemma length_chunks: "0 < n \<Longrightarrow> length xs = n * k \<Longrightarrow> length (chunks n xs) = k"
proof (induction n xs arbitrary: k rule: chunks.induct)
  case (1 n xs)
  show ?case
  proof (cases "xs = []")
    case True
    then show ?thesis using 1(2,3) by (simp add: chunks.simps)
  next
    case False
    then obtain k' where k: "k = Suc k'" using 1(3) by (cases k) auto
    have "length (chunks n (drop n xs)) = k'" using False 1(2,3) k by (intro 1(1)) simp_all
    then show ?thesis using False 1(2) k by (subst chunks.simps) simp
  qed
qed

lemma those_map_Some: "those (map Some xs) = Some xs"
  by (induction xs) simp_all

lemma those_Some_map: "those os = Some xs \<Longrightarrow> os = map Some xs"
  by (induction os arbitrary: xs) (auto split: option.splits)

lemma peval_append_zeros: "peval (p @ replicate k 0) x = peval p x"
proof (induction p)
  case Nil
  show ?case by (induction k) simp_all
qed simp

section \<open>Extension and reassembly\<close>

lemma interp_of_evals:
  fixes c :: "'a::field list"
  assumes "distinct ys" "length c \<le> length ys"
  shows "interp ys (map (peval c) ys) = c @ replicate (length ys - length c) 0"
proof (rule poly_unique [of ys])
  show "distinct ys" by fact
  show "length (interp ys (map (peval c) ys)) = length (c @ replicate (length ys - length c) 0)"
    using assms(2) by (simp add: length_interp)
  show "length (interp ys (map (peval c) ys)) \<le> length ys"
    by (simp add: length_interp)
  show "\<forall>r \<in> set ys. peval (interp ys (map (peval c) ys)) r
      = peval (c @ replicate (length ys - length c) 0) r"
  proof
    fix r assume "r \<in> set ys"
    then obtain i where i: "i < length ys" "ys ! i = r" by (auto simp add: in_set_conv_nth)
    then have "peval (interp ys (map (peval c) ys)) (ys ! i) = map (peval c) ys ! i"
      using assms(1) by (intro peval_interp) simp_all
    then show "peval (interp ys (map (peval c) ys)) r
        = peval (c @ replicate (length ys - length c) 0) r"
      using i by (simp add: peval_append_zeros)
  qed
qed

lemma evals_of_interp:
  fixes vs :: "'a::field list"
  assumes "distinct xs" "length vs = length xs"
  shows "map (peval (interp xs vs)) xs = vs"
  using assms by (simp add: list_eq_iff_nth_eq peval_interp)

lemma round_trip_core:
  fixes P :: "('a::field) domain_params"
  assumes ok: "params_ok P" and fepc: "0 < fepc"
    and len: "length blob = 32 * length (eval_domain P)"
    and valid: "blob_elements P blob \<noteq> None"
  shows "\<exists>cells. extend_cells P fepc blob = Some cells \<and> assemble_cells P cells = Some blob
           \<and> concat cells = map (\<lambda>y. encode_fe P (peval (interp (eval_domain P)
                 (the (blob_elements P blob))) y)) (ext_domain P)"
proof -
  let ?xs = "eval_domain P" and ?ys = "ext_domain P"
  from valid obtain vs where vs: "blob_elements P blob = Some vs" by auto
  then have dec: "map (decode_fe P) (chunks 32 blob) = map Some vs"
    by (simp add: blob_elements_def those_Some_map)
  have "length (chunks 32 blob) = length ?xs" using len by (intro length_chunks) simp_all
  then have lvs: "length vs = length ?xs" using dec by (metis length_map)
  define c where "c = interp ?xs vs"
  define es where "es = map (peval c) ?ys"
  define cells where "cells = chunks fepc (map (encode_fe P) es)"
  have lc: "length c = length ?xs" using lvs by (simp add: c_def length_interp)
  have ext: "extend_cells P fepc blob = Some cells"
    using vs lvs by (simp add: extend_cells_def cells_def es_def c_def comp_def)
  have cc: "concat cells = map (encode_fe P) es"
    using fepc by (simp add: cells_def concat_chunks)
  have "map (decode_fe P) (concat cells) = map Some es"
    using ok by (simp add: cc params_ok_def)
  then have th: "those (map (decode_fe P) (concat cells)) = Some es"
    by (simp add: those_map_Some)
  have les: "length es = length ?ys" by (simp add: es_def)
  have ly: "length ?ys = 2 * length ?xs" using ok by (simp add: params_ok_def)
  have d: "interp ?ys es = c @ replicate (length ?xs) 0"
    unfolding es_def using ok lc ly interp_of_evals [of ?ys c] by (simp add: params_ok_def)
  have "map (\<lambda>x. encode_fe P (peval c x)) ?xs = map (encode_fe P) (map (peval c) ?xs)"
    by simp
  also have "map (peval c) ?xs = vs"
    unfolding c_def using ok lvs by (intro evals_of_interp) (simp_all add: params_ok_def)
  also have "map (encode_fe P) vs = chunks 32 blob"
  proof (rule nth_equalityI)
    show "length (map (encode_fe P) vs) = length (chunks 32 blob)"
      using dec by (metis length_map)
  next
    fix i assume "i < length (map (encode_fe P) vs)"
    then have i: "i < length vs" by simp
    then have "i < length (chunks 32 blob)" using dec by (metis length_map)
    then have "decode_fe P (chunks 32 blob ! i) = Some (vs ! i)"
      using dec i by (metis nth_map)
    then have "encode_fe P (vs ! i) = chunks 32 blob ! i" using ok by (simp add: params_ok_def)
    then show "map (encode_fe P) vs ! i = chunks 32 blob ! i" using i by simp
  qed
  finally have "concat (map (\<lambda>x. encode_fe P (peval c x)) ?xs) = blob"
    by (simp add: concat_chunks)
  then have "assemble_cells P cells = Some blob"
    using th les d lc by (simp add: assemble_cells_def Let_def list_ex_iff)
  moreover have "concat cells = map (\<lambda>y. encode_fe P (peval (interp ?xs
      (the (blob_elements P blob))) y)) ?ys"
    using cc vs by (simp add: es_def c_def)
  ultimately show ?thesis using ext by blast
qed

section \<open>Recovery\<close>

lemma nth_chunks:
  "0 < n \<Longrightarrow> i * n < length xs \<Longrightarrow> chunks n xs ! i = take n (drop (i * n) xs)"
proof (induction i arbitrary: xs)
  case 0
  then have "xs \<noteq> []" by auto
  then show ?case using 0 by (subst chunks.simps) simp
next
  case (Suc i)
  then have ne: "xs \<noteq> []" by auto
  have "i * n < length (drop n xs)" using Suc(2,3) by simp
  then have "chunks n (drop n xs) ! i = take n (drop (i * n) (drop n xs))"
    using Suc(2) by (intro Suc(1))
  then show ?case using ne Suc(2) by (subst chunks.simps) (simp add: add.commute)
qed

lemma take_drop_map_nth:
  "k + n \<le> length xs \<Longrightarrow> take n (drop k xs) = map (\<lambda>j. xs ! (k + j)) [0..<n]"
  by (simp add: list_eq_iff_nth_eq)

lemma concat_map_product:
  "concat (map (\<lambda>x. map (f x) ys) xs) = map (\<lambda>(x, y). f x y) (List.product xs ys)"
  by (induction xs) simp_all

lemma distinct_cell_positions:
  assumes "distinct ids" "0 < fepc"
  shows "distinct (cell_positions fepc ids)"
proof -
  have "inj_on (\<lambda>(id, j). unat (id::64 word) * fepc + j) (set (List.product ids [0..<fepc]))"
  proof (rule inj_onI, clarsimp)
    fix a b :: "64 word" and i j
    assume ij: "i < fepc" "j < fepc" and eq: "unat a * fepc + i = unat b * fepc + j"
    have "(unat a * fepc + i) div fepc = unat a" "(unat b * fepc + j) div fepc = unat b"
      using ij by simp_all
    then have ab: "unat a = unat b" using eq by metis
    then have "i = j" using eq by simp
    then show "a = b \<and> i = j" using ab by (simp add: word_unat_eq_iff)
  qed
  moreover have "distinct (List.product ids [0..<fepc])"
    using assms(1) by (simp add: distinct_product)
  ultimately show ?thesis
    by (simp add: cell_positions_def concat_map_product distinct_map)
qed

lemma cell_positions_bound:
  assumes "\<forall>id \<in> set ids. unat id < ncells" "k \<in> set (cell_positions fepc ids)"
  shows "k < ncells * fepc"
proof -
  from assms(2) obtain id where id: "id \<in> set ids" "k < fepc + unat id * fepc"
    by (auto simp add: cell_positions_def)
  then have "Suc (unat id) \<le> ncells" using assms(1) by (simp add: Suc_le_eq)
  then have "Suc (unat id) * fepc \<le> ncells * fepc" by (rule mult_le_mono1)
  then show ?thesis using id(2) by simp
qed

lemma length_cell_positions: "length (cell_positions fepc ids) = length ids * fepc"
  by (induction ids) (simp_all add: cell_positions_def)

lemma concat_selected_chunks:
  assumes "0 < fepc" "length E = ncells * fepc" "\<forall>id \<in> set ids. unat id < ncells"
  shows "concat (map (\<lambda>id. chunks fepc E ! unat id) ids) = map (\<lambda>k. E ! k) (cell_positions fepc ids)"
proof -
  have "\<And>id. id \<in> set ids \<Longrightarrow>
      chunks fepc E ! unat id = map (\<lambda>j. E ! (unat id * fepc + j)) [0..<fepc]"
  proof -
    fix id assume "id \<in> set ids"
    then have lt: "unat id < ncells" using assms(3) by simp
    then have "Suc (unat id) \<le> ncells" by (simp add: Suc_le_eq)
    then have b: "Suc (unat id) * fepc \<le> ncells * fepc" by (rule mult_le_mono1)
    have "unat id * fepc < length E" using assms(1,2) lt by simp
    then have "chunks fepc E ! unat id = take fepc (drop (unat id * fepc) E)"
      using assms(1) by (intro nth_chunks)
    also have "\<dots> = map (\<lambda>j. E ! (unat id * fepc + j)) [0..<fepc]"
      using b assms(2) by (intro take_drop_map_nth) simp
    finally show "chunks fepc E ! unat id = map (\<lambda>j. E ! (unat id * fepc + j)) [0..<fepc]" .
  qed
  then have eq: "map (\<lambda>id. chunks fepc E ! unat id) ids
      = map (\<lambda>id. map (\<lambda>j. E ! (unat id * fepc + j)) [0..<fepc]) ids"
    by (intro map_cong) simp_all
  have "map (\<lambda>k. E ! k) (cell_positions fepc ids)
      = concat (map (\<lambda>id. map (\<lambda>j. E ! (unat id * fepc + j)) [0..<fepc]) ids)"
    by (simp add: cell_positions_def map_concat comp_def)
  then show ?thesis by (simp only: eq)
qed

lemma those_map_Some_comp: "those (map (\<lambda>x. Some (f x)) xs) = Some (map f xs)"
  using those_map_Some [of "map f xs"] by (simp add: comp_def)

lemma recover_core:
  fixes P :: "('a::field) domain_params"
  assumes ok: "params_ok P" and fepc: "0 < fepc"
    and size: "length (eval_domain P) = h * fepc" "ncells = 2 * h"
    and len: "length blob = 32 * length (eval_domain P)"
    and valid: "blob_elements P blob \<noteq> None"
    and ext: "extend_cells P fepc blob = Some full"
    and ids: "distinct ids" "\<forall>id \<in> set ids. unat id < ncells" "ncells div 2 \<le> length ids"
  shows "recover_all_cells_spec P fepc ncells ids (map (\<lambda>id. full ! unat id) ids) (length ids) s
           = (C_KZG_OK, full)"
proof -
  let ?xs = "eval_domain P" and ?ys = "ext_domain P"
  from valid obtain vs where vs: "blob_elements P blob = Some vs" by auto
  then have dec: "map (decode_fe P) (chunks 32 blob) = map Some vs"
    by (simp add: blob_elements_def those_Some_map)
  have "length (chunks 32 blob) = length ?xs" using len by (intro length_chunks) simp_all
  then have lvs: "length vs = length ?xs" using dec by (metis length_map)
  define c where "c = interp ?xs vs"
  define E where "E = map (\<lambda>y. encode_fe P (peval c y)) ?ys"
  have lc: "length c = length ?xs" using lvs by (simp add: c_def length_interp)
  have full: "full = chunks fepc E"
    using ext vs lvs by (simp add: extend_cells_def E_def c_def)
  have ly: "length ?ys = ncells * fepc" using ok size by (simp add: params_ok_def)
  then have lE: "length E = ncells * fepc" by (simp add: E_def)
  define pos where "pos = cell_positions fepc ids"
  define pts where "pts = map (\<lambda>k. ?ys ! k) pos"
  have posb: "\<forall>k \<in> set pos. k < length ?ys"
    using cell_positions_bound [OF ids(2)] ly by (simp add: pos_def)
  have cc: "concat (map (\<lambda>id. full ! unat id) ids) = map (\<lambda>k. E ! k) pos"
    unfolding full pos_def using fepc lE ids(2) by (rule concat_selected_chunks)
  have "map (\<lambda>k. E ! k) pos = map (\<lambda>k. encode_fe P (peval c (?ys ! k))) pos"
    using posb by (simp add: E_def)
  then have "map (decode_fe P) (concat (map (\<lambda>id. full ! unat id) ids))
      = map (\<lambda>x. Some (peval c x)) pts"
    using ok by (simp add: cc pts_def params_ok_def comp_def)
  then have th: "those (map (decode_fe P) (concat (map (\<lambda>id. full ! unat id) ids)))
      = Some (map (peval c) pts)"
    by (simp only: those_map_Some_comp)
  have dpos: "distinct pos" unfolding pos_def using ids(1) fepc by (rule distinct_cell_positions)
  have dys: "distinct ?ys" using ok by (simp add: params_ok_def)
  have dpts: "distinct pts"
    unfolding pts_def using dpos posb dys
    by (auto simp add: distinct_map inj_on_def nth_eq_iff_index_eq)
  have lpts: "length pts = length ids * fepc" by (simp add: pts_def pos_def length_cell_positions)
  have "h \<le> length ids" using ids(3) size(2) by simp
  then have "h * fepc \<le> length ids * fepc" by (rule mult_le_mono1)
  then have cle: "length c \<le> length pts" using lc size(1) lpts by simp
  have d: "interp pts (map (peval c) pts) = c @ replicate (length pts - length c) 0"
    using dpts cle by (rule interp_of_evals)
  have nothalf: "\<not> length ids < ncells div 2" using ids(3) by simp
  have inrange: "\<not> list_ex (\<lambda>id. ncells \<le> unat id) ids"
    using ids(2) by (auto simp add: list_ex_iff)
  show ?thesis
    unfolding recover_all_cells_spec_def
    using nothalf ids(1) inrange th d lc
    by (simp add: Let_def list_ex_iff pts_def [symmetric] pos_def [symmetric] full E_def)
qed

section \<open>The field with 17 elements\<close>

lemma gf_eq_iff: "gf a = gf b \<longleftrightarrow> a mod 17 = b mod 17"
  by (simp add: gf_def Abs_gf17_inject)

lemma Rep_gf17_range: "0 \<le> Rep_gf17 a \<and> Rep_gf17 a < 17"
  using Rep_gf17 [of a] by simp

lemma uint_Rep_gf17: "uint (word_of_int (Rep_gf17 a) :: byte) = Rep_gf17 a"
proof -
  have "Rep_gf17 a mod 256 = Rep_gf17 a" using Rep_gf17_range [of a] by simp
  then show ?thesis by (simp add: uint_word_of_int take_bit_eq_mod)
qed

lemma decode17_encode17: "decode17 (encode17 a) = Some a"
  using Rep_gf17_range [of a]
  by (simp add: decode17_def encode17_def nth_append uint_Rep_gf17 Rep_gf17_inverse)

lemma encode17_decode17:
  assumes "decode17 bs = Some a"
  shows "encode17 a = bs"
proof -
  from assms have l: "length bs = 32" and z: "take 31 bs = replicate 31 0"
    and u: "uint (bs ! 31) < 17" and a: "a = Abs_gf17 (uint (bs ! 31))"
    by (auto simp add: decode17_def split: if_splits)
  have "Rep_gf17 a = uint (bs ! 31)" using u a by (simp add: Abs_gf17_inverse)
  then have "encode17 a = take 31 bs @ [bs ! 31]" using z by (simp add: encode17_def)
  moreover have "take (Suc 31) bs = take 31 bs @ [bs ! 31]"
    using l by (intro take_Suc_conv_app_nth) simp
  moreover have "take (Suc 31) bs = bs" using l by simp
  ultimately show ?thesis by simp
qed

lemma length_encode17: "length (encode17 a) = 32"
  by (simp add: encode17_def)

lemma params_ok_P17: "params_ok P17"
  by (simp add: params_ok_def P17_def gf_eq_iff decode17_encode17 length_encode17)
    (auto dest: encode17_decode17)

lemma length_extend_cells:
  assumes "extend_cells P fepc blob = Some cells" "0 < fepc" "length (ext_domain P) = fepc * k"
  shows "length cells = k"
proof -
  from assms(1) obtain vs where
    "cells = chunks fepc (map (\<lambda>y. encode_fe P (peval (interp (eval_domain P) vs) y))
       (ext_domain P))"
    by (auto simp add: extend_cells_def split: option.splits if_splits)
  then show ?thesis using assms(2,3) by (simp add: length_chunks)
qed

lemma valid_blob17: "valid_blob P17 blob17"
proof -
  have "chunks 32 blob17 = map encode17 [gf 3, gf 1, gf 4, gf 1]"
    unfolding blob17_def by (intro chunks_concat) (simp_all add: length_encode17)
  then have "blob_elements P17 blob17 = Some [gf 3, gf 1, gf 4, gf 1]"
    by (simp add: blob_elements_def P17_def decode17_encode17)
  then show ?thesis by (simp add: valid_blob_def P17_def blob17_def length_encode17)
qed

section \<open>The round trip of cells\<close>

text \<open>Claim C2. For every valid blob, \<open>ComputeCells\<close> (and \<open>ComputeCellsAndProofs\<close>)
  return \<open>CELLS_PER_EXT_BLOB\<close> cells, and \<open>CellsToBlob\<close> applied to these cells returns
  the blob, byte for byte, without an error. The two library functions are the
  specification's \<open>extendAndProve\<close> and \<open>assemble\<close>; the theorem holds for every
  well-formed parameter set (any field, any domains of distinct points).\<close>

theorem cells_round_trip:
  assumes "loaded st" and "params_ok P" and "0 < FIELD_ELEMENTS_PER_CELL lib"
    and "length (ext_domain P) = FIELD_ELEMENTS_PER_CELL lib * CELLS_PER_EXT_BLOB lib"
    and "compute_cells_and_proofs lib
           = compute_cells_and_proofs_spec P prove (FIELD_ELEMENTS_PER_CELL lib)"
    and "cells_to_blob lib = cells_to_blob_spec P"
    and "valid_blob P blob"
  shows "\<exists>cells proofs.
           ComputeCells lib st (Some blob) = Returned (cells, None)
         \<and> ComputeCellsAndProofs lib st (Some blob) = Returned (cells, proofs, None)
         \<and> length cells = CELLS_PER_EXT_BLOB lib
         \<and> CellsToBlob lib st cells = Returned (blob, None)"
proof -
  from assms(7) have "length blob = 32 * length (eval_domain P)" "blob_elements P blob \<noteq> None"
    by (simp_all add: valid_blob_def)
  with assms(2,3) obtain cells where
    ext: "extend_cells P (FIELD_ELEMENTS_PER_CELL lib) blob = Some cells"
    and asm: "assemble_cells P cells = Some blob"
    using round_trip_core [of P "FIELD_ELEMENTS_PER_CELL lib" blob] by blast
  have "length cells = CELLS_PER_EXT_BLOB lib"
    using ext assms(3,4) by (rule length_extend_cells)
  moreover have "ComputeCells lib st (Some blob) = Returned (cells, None)"
    using assms(1,5) ext by (simp add: ComputeCells_def compute_cells_and_proofs_spec_def)
  moreover have "ComputeCellsAndProofs lib st (Some blob) = Returned (cells, prove blob (settings st), None)"
    using assms(1,5) ext
    by (simp add: ComputeCellsAndProofs_def compute_cells_and_proofs_spec_def)
  moreover have "CellsToBlob lib st cells = Returned (blob, None)"
    using assms(1,6) asm by (simp add: CellsToBlob_def cells_to_blob_spec_def)
  ultimately show ?thesis by blast
qed

theorem cells_round_trip_witness:
  "loaded loadedState \<and> params_ok P17 \<and> 0 < FIELD_ELEMENTS_PER_CELL lib17
   \<and> length (ext_domain P17) = FIELD_ELEMENTS_PER_CELL lib17 * CELLS_PER_EXT_BLOB lib17
   \<and> compute_cells_and_proofs lib17
       = compute_cells_and_proofs_spec P17 (\<lambda>blob s. replicate 4 zeroBytes48)
           (FIELD_ELEMENTS_PER_CELL lib17)
   \<and> cells_to_blob lib17 = cells_to_blob_spec P17
   \<and> valid_blob P17 blob17
   \<and> (\<exists>cells proofs.
         ComputeCells lib17 loadedState (Some blob17) = Returned (cells, None)
       \<and> ComputeCellsAndProofs lib17 loadedState (Some blob17) = Returned (cells, proofs, None)
       \<and> length cells = CELLS_PER_EXT_BLOB lib17
       \<and> CellsToBlob lib17 loadedState cells = Returned (blob17, None))"
proof -
  have h: "loaded loadedState" "0 < FIELD_ELEMENTS_PER_CELL lib17"
    "length (ext_domain P17) = FIELD_ELEMENTS_PER_CELL lib17 * CELLS_PER_EXT_BLOB lib17"
    "compute_cells_and_proofs lib17
       = compute_cells_and_proofs_spec P17 (\<lambda>blob s. replicate 4 zeroBytes48)
           (FIELD_ELEMENTS_PER_CELL lib17)"
    "cells_to_blob lib17 = cells_to_blob_spec P17"
    by (simp_all add: loadedState_def lib17_def fixedLib_def P17_def)
  show ?thesis
    using h params_ok_P17 valid_blob17
      cells_round_trip [OF h(1) params_ok_P17 h(2) h(3) h(4) h(5) valid_blob17]
    by simp
qed

section \<open>Recovery of all cells\<close>

lemma ComputeCells_spec_extend:
  assumes "loaded st"
    and "compute_cells_and_proofs lib = compute_cells_and_proofs_spec P prove fepc"
    and "ComputeCells lib st (Some blob) = Returned (full, None)"
  shows "extend_cells P fepc blob = Some full"
  using assms
  by (auto simp add: ComputeCells_def compute_cells_and_proofs_spec_def split: option.splits)

text \<open>Claim C6. With the trusted setup loaded and the library's \<open>recover_all_cells\<close> as
  the specification describes it, \<open>RecoverAllCells\<close> returns \<open>ErrBadArgs\<close> when fewer than
  \<open>CELLS_PER_EXT_BLOB / 2\<close> cells are supplied, when a cell id occurs twice and when a
  cell id is out of range; and given at least \<open>CELLS_PER_EXT_BLOB / 2\<close> cells of the
  extended blob of a valid blob, under distinct ids in range, it returns all the cells
  of that extended blob.\<close>

theorem recover_all_cells_claim:
  assumes "loaded st"
    and "recover_all_cells lib
           = recover_all_cells_spec P (FIELD_ELEMENTS_PER_CELL lib) (CELLS_PER_EXT_BLOB lib)"
  shows "(length cells < CELLS_PER_EXT_BLOB lib div 2 \<longrightarrow>
            RecoverAllCells lib st cellIds cells = Returned (zeroCells lib, Some ErrBadArgs))
       \<and> (\<not> distinct cellIds \<longrightarrow>
            RecoverAllCells lib st cellIds cells = Returned (zeroCells lib, Some ErrBadArgs))
       \<and> (list_ex (\<lambda>id. CELLS_PER_EXT_BLOB lib \<le> unat id) cellIds \<longrightarrow>
            RecoverAllCells lib st cellIds cells = Returned (zeroCells lib, Some ErrBadArgs))
       \<and> (params_ok P \<and> 0 < FIELD_ELEMENTS_PER_CELL lib
            \<and> length (eval_domain P) = h * FIELD_ELEMENTS_PER_CELL lib
            \<and> CELLS_PER_EXT_BLOB lib = 2 * h
            \<and> compute_cells_and_proofs lib
                = compute_cells_and_proofs_spec P prove (FIELD_ELEMENTS_PER_CELL lib)
            \<and> valid_blob P blob
            \<and> ComputeCells lib st (Some blob) = Returned (full, None)
            \<and> distinct cellIds
            \<and> list_all (\<lambda>id. unat id < CELLS_PER_EXT_BLOB lib) cellIds
            \<and> CELLS_PER_EXT_BLOB lib div 2 \<le> length cellIds
            \<and> cells = map (\<lambda>id. full ! unat id) cellIds \<longrightarrow>
            RecoverAllCells lib st cellIds cells = Returned (full, None))"
proof (intro conjI impI)
  assume "length cells < CELLS_PER_EXT_BLOB lib div 2"
  then show "RecoverAllCells lib st cellIds cells = Returned (zeroCells lib, Some ErrBadArgs)"
    using assms by (simp add: RecoverAllCells_def recover_all_cells_spec_def)
next
  assume "\<not> distinct cellIds"
  then show "RecoverAllCells lib st cellIds cells = Returned (zeroCells lib, Some ErrBadArgs)"
    using assms by (simp add: RecoverAllCells_def recover_all_cells_spec_def)
next
  assume "list_ex (\<lambda>id. CELLS_PER_EXT_BLOB lib \<le> unat id) cellIds"
  then show "RecoverAllCells lib st cellIds cells = Returned (zeroCells lib, Some ErrBadArgs)"
    using assms by (simp add: RecoverAllCells_def recover_all_cells_spec_def)
next
  assume a: "params_ok P \<and> 0 < FIELD_ELEMENTS_PER_CELL lib
      \<and> length (eval_domain P) = h * FIELD_ELEMENTS_PER_CELL lib
      \<and> CELLS_PER_EXT_BLOB lib = 2 * h
      \<and> compute_cells_and_proofs lib
          = compute_cells_and_proofs_spec P prove (FIELD_ELEMENTS_PER_CELL lib)
      \<and> valid_blob P blob
      \<and> ComputeCells lib st (Some blob) = Returned (full, None)
      \<and> distinct cellIds
      \<and> list_all (\<lambda>id. unat id < CELLS_PER_EXT_BLOB lib) cellIds
      \<and> CELLS_PER_EXT_BLOB lib div 2 \<le> length cellIds
      \<and> cells = map (\<lambda>id. full ! unat id) cellIds"
  then have ext: "extend_cells P (FIELD_ELEMENTS_PER_CELL lib) blob = Some full"
    using assms(1) ComputeCells_spec_extend [of st lib P prove "FIELD_ELEMENTS_PER_CELL lib" blob full]
    by simp
  from a have "list_all (\<lambda>id. unat id < CELLS_PER_EXT_BLOB lib) cellIds" by blast
  then have ids: "\<forall>id \<in> set cellIds. unat id < CELLS_PER_EXT_BLOB lib"
    by (simp only: list_all_iff)
  have ok: "params_ok P" and fepc: "0 < FIELD_ELEMENTS_PER_CELL lib"
    and size: "length (eval_domain P) = h * FIELD_ELEMENTS_PER_CELL lib"
      "CELLS_PER_EXT_BLOB lib = 2 * h"
    and vb: "valid_blob P blob"
    and dist: "distinct cellIds"
    and half: "CELLS_PER_EXT_BLOB lib div 2 \<le> length cellIds"
    and cells: "cells = map (\<lambda>id. full ! unat id) cellIds"
    using a by blast+
  have len: "length blob = 32 * length (eval_domain P)"
    and valid: "blob_elements P blob \<noteq> None"
    using vb by (simp_all add: valid_blob_def)
  have "recover_all_cells_spec P (FIELD_ELEMENTS_PER_CELL lib) (CELLS_PER_EXT_BLOB lib) cellIds
      (map (\<lambda>id. full ! unat id) cellIds) (length cellIds) (settings st) = (C_KZG_OK, full)"
    using ok fepc size len valid ext dist ids half by (rule recover_core)
  then show "RecoverAllCells lib st cellIds cells = Returned (full, None)"
    using assms cells by (simp add: RecoverAllCells_def)
qed

lemma ComputeCells17: "ComputeCells lib17 loadedState (Some blob17) = Returned (cells17, None)"
proof -
  have v: "length blob17 = 32 * length (eval_domain P17)" "blob_elements P17 blob17 \<noteq> None"
    using valid_blob17 by (simp_all add: valid_blob_def)
  obtain cells where "extend_cells P17 2 blob17 = Some cells"
    using round_trip_core [OF params_ok_P17 _ v, of 2] by auto
  then show ?thesis
    by (simp add: cells17_def ComputeCells_def lib17_def fixedLib_def loadedState_def
        compute_cells_and_proofs_spec_def)
qed

theorem recover_all_cells_claim_witness:
  "loaded loadedState
   \<and> recover_all_cells lib17
       = recover_all_cells_spec P17 (FIELD_ELEMENTS_PER_CELL lib17) (CELLS_PER_EXT_BLOB lib17)
   \<and> length ([cells17 ! 0]) < CELLS_PER_EXT_BLOB lib17 div 2
   \<and> RecoverAllCells lib17 loadedState [0] [cells17 ! 0]
       = Returned (zeroCells lib17, Some ErrBadArgs)
   \<and> \<not> distinct [1, 1 :: 64 word]
   \<and> RecoverAllCells lib17 loadedState [1, 1] [cells17 ! 1, cells17 ! 1]
       = Returned (zeroCells lib17, Some ErrBadArgs)
   \<and> list_ex (\<lambda>id. CELLS_PER_EXT_BLOB lib17 \<le> unat id) [0, 4 :: 64 word]
   \<and> RecoverAllCells lib17 loadedState [0, 4] [cells17 ! 0, cells17 ! 1]
       = Returned (zeroCells lib17, Some ErrBadArgs)
   \<and> params_ok P17 \<and> 0 < FIELD_ELEMENTS_PER_CELL lib17
   \<and> length (eval_domain P17) = 2 * FIELD_ELEMENTS_PER_CELL lib17
   \<and> CELLS_PER_EXT_BLOB lib17 = 2 * 2
   \<and> compute_cells_and_proofs lib17
       = compute_cells_and_proofs_spec P17 (\<lambda>blob s. replicate 4 zeroBytes48)
           (FIELD_ELEMENTS_PER_CELL lib17)
   \<and> valid_blob P17 blob17
   \<and> ComputeCells lib17 loadedState (Some blob17) = Returned (cells17, None)
   \<and> distinct [3, 1 :: 64 word]
   \<and> list_all (\<lambda>id. unat id < CELLS_PER_EXT_BLOB lib17) [3, 1 :: 64 word]
   \<and> CELLS_PER_EXT_BLOB lib17 div 2 \<le> length [3, 1 :: 64 word]
   \<and> RecoverAllCells lib17 loadedState [3, 1] (map (\<lambda>id. cells17 ! unat id) [3, 1 :: 64 word])
       = Returned (cells17, None)"
proof -
  have l: "loaded loadedState" by (simp add: loadedState_def)
  have r: "recover_all_cells lib17
      = recover_all_cells_spec P17 (FIELD_ELEMENTS_PER_CELL lib17) (CELLS_PER_EXT_BLOB lib17)"
    by (simp add: lib17_def fixedLib_def)
  have c: "compute_cells_and_proofs lib17
      = compute_cells_and_proofs_spec P17 (\<lambda>blob s. replicate 4 zeroBytes48)
          (FIELD_ELEMENTS_PER_CELL lib17)"
    by (simp add: lib17_def fixedLib_def)
  have k: "FIELD_ELEMENTS_PER_CELL lib17 = 2" "CELLS_PER_EXT_BLOB lib17 = 4"
    "length (eval_domain P17) = 4"
    by (simp_all add: lib17_def fixedLib_def P17_def)
  note t = recover_all_cells_claim [OF l r]
  show ?thesis
    using l r c k params_ok_P17 valid_blob17 ComputeCells17
      t [where cells = "[cells17 ! 0]" and cellIds = "[0]"]
      t [where cells = "[cells17 ! 1, cells17 ! 1]" and cellIds = "[1, 1]"]
      t [where cells = "[cells17 ! 0, cells17 ! 1]" and cellIds = "[0, 4]"]
      t [where cells = "map (\<lambda>id. cells17 ! unat id) [3, 1 :: 64 word]" and cellIds = "[3, 1]"
        and h = 2 and prove = "\<lambda>blob s. replicate 4 zeroBytes48" and blob = blob17
        and full = cells17]
    by simp
qed

section \<open>Evaluation proofs\<close>

lemma smul1_zero:
  fixes G :: "('a::field, 'g1::ab_group_add, 'g2::ab_group_add, 'gt) curve_params"
  assumes "curve_ok G"
  shows "smul1 G 0 p = 0"
proof -
  have "smul1 G (0 + 0) p = smul1 G 0 p + smul1 G 0 p"
    using assms unfolding curve_ok_def by blast
  then show ?thesis by simp
qed

lemma smul1_diff:
  fixes G :: "('a::field, 'g1::ab_group_add, 'g2::ab_group_add, 'gt) curve_params"
  assumes "curve_ok G"
  shows "smul1 G a p - smul1 G b p = smul1 G (a - b) p"
proof -
  have "smul1 G ((a - b) + b) p = smul1 G (a - b) p + smul1 G b p"
    using assms unfolding curve_ok_def by blast
  then show ?thesis by simp
qed

lemma smul2_diff:
  fixes G :: "('a::field, 'g1::ab_group_add, 'g2::ab_group_add, 'gt) curve_params"
  assumes "curve_ok G"
  shows "smul2 G a q - smul2 G b q = smul2 G (a - b) q"
proof -
  have "smul2 G ((a - b) + b) q = smul2 G (a - b) q + smul2 G b q"
    using assms unfolding curve_ok_def by blast
  then show ?thesis by simp
qed

lemma msm_powers_shift:
  fixes G :: "('a::field, 'g1::ab_group_add, 'g2::ab_group_add, 'gt) curve_params"
  assumes ok: "curve_ok G"
  shows "length c \<le> m \<Longrightarrow>
    msm (smul1 G) c (map (\<lambda>i. smul1 G (tau ^ (k + i)) (g1_gen G)) [0..<m])
      = smul1 G (tau ^ k * peval c tau) (g1_gen G)"
proof (induction c arbitrary: k m)
  case Nil
  then show ?case using smul1_zero [OF ok] by simp
next
  case (Cons a c)
  then obtain m' where m: "m = Suc m'" by (cases m) auto
  have add: "\<And>x y p. smul1 G x p + smul1 G y p = smul1 G (x + y) p"
    and mul: "\<And>x y p. smul1 G x (smul1 G y p) = smul1 G (x * y) p"
    using ok unfolding curve_ok_def by simp_all
  have "map (\<lambda>i. smul1 G (tau ^ (k + i)) (g1_gen G)) [0..<Suc m']
      = smul1 G (tau ^ k) (g1_gen G)
        # map (\<lambda>i. smul1 G (tau ^ (Suc k + i)) (g1_gen G)) [0..<m']"
    by (simp add: map_upt_Suc del: upt_Suc)
  moreover have "msm (smul1 G) c (map (\<lambda>i. smul1 G (tau ^ (Suc k + i)) (g1_gen G)) [0..<m'])
      = smul1 G (tau ^ Suc k * peval c tau) (g1_gen G)"
    using Cons(2) m by (intro Cons(1)) simp
  ultimately show ?case
    unfolding m by (simp add: add mul algebra_simps del: upt_Suc)
qed

lemma msm_powers:
  fixes G :: "('a::field, 'g1::ab_group_add, 'g2::ab_group_add, 'gt) curve_params"
  assumes "curve_ok G" "length c \<le> n"
  shows "msm (smul1 G) c (g1_powers (setup_from G n tau)) = smul1 G (peval c tau) (g1_gen G)"
  using msm_powers_shift [OF assms(1), of c n tau 0] assms(2) by (simp add: setup_from_def)

lemma decompress17_compress17: "decompress17 (compress17 p) = Some p"
  using Rep_gf17_range [of p]
  by (simp add: decompress17_def compress17_def nth_append uint_Rep_gf17 Rep_gf17_inverse)

lemma curve_ok_G17: "curve_ok G17"
  by (simp add: curve_ok_def G17_def decompress17_compress17 algebra_simps)

text \<open>Claim C3. For every valid blob and every canonical evaluation point \<open>z\<close>,
  \<open>BlobToKZGCommitment\<close> returns a commitment, \<open>ComputeKZGProof\<close> returns a proof and a
  value \<open>y\<close>, and \<open>VerifyKZGProof\<close> applied to that commitment, \<open>z\<close>, \<open>y\<close> and the proof
  returns \<open>true\<close> without an error. The library functions are the specification's
  \<open>commit\<close>, \<open>proveAt\<close> and \<open>verifyAt\<close>, over any field, any pairing of modules over it
  and a setup of at least \<open>FIELD_ELEMENTS_PER_BLOB\<close> powers of any secret.\<close>

theorem kzg_proof_verifies:
  fixes P :: "('a::field) domain_params"
    and G :: "('a, 'g1::ab_group_add, 'g2::ab_group_add, 'gt) curve_params"
  assumes "loaded st" and "params_ok P" and "curve_ok G"
    and "settings st = setup_from G n tau" and "length (eval_domain P) \<le> n"
    and "blob_to_kzg_commitment lib = blob_to_kzg_commitment_spec P G"
    and "compute_kzg_proof lib = compute_kzg_proof_spec P G"
    and "verify_kzg_proof lib = verify_kzg_proof_spec P G"
    and "valid_blob P blob" and "decode_fe P zBytes \<noteq> None"
  shows "\<exists>commitment prf yBytes.
           BlobToKZGCommitment lib st (Some blob) = Returned (commitment, None)
         \<and> ComputeKZGProof lib st (Some blob) zBytes = Returned (prf, yBytes, None)
         \<and> VerifyKZGProof lib st commitment zBytes yBytes prf = Returned (True, None)"
proof -
  let ?xs = "eval_domain P"
  from assms(9) obtain vs where vs: "blob_elements P blob = Some vs"
    and len: "length blob = 32 * length ?xs"
    by (auto simp add: valid_blob_def)
  from assms(10) obtain z where z: "decode_fe P zBytes = Some z" by auto
  have dec: "map (decode_fe P) (chunks 32 blob) = map Some vs"
    using vs by (simp add: blob_elements_def those_Some_map)
  have "length (chunks 32 blob) = length ?xs" using len by (intro length_chunks) simp_all
  then have lvs: "length vs = length ?xs" using dec by (metis length_map)
  define p where "p = interp ?xs vs"
  define q where "q = synth_div p z"
  define y where "y = peval p z"
  have lp: "length p \<le> n" using lvs assms(5) by (simp add: p_def length_interp)
  have lq: "length q \<le> n" using lp by (simp add: q_def length_synth_div)
  define c where "c = smul1 G (peval p tau) (g1_gen G)"
  define w where "w = smul1 G (peval q tau) (g1_gen G)"
  have mc: "msm (smul1 G) p (g1_powers (settings st)) = c"
    using msm_powers [OF assms(3) lp] by (simp add: assms(4) c_def)
  have mw: "msm (smul1 G) q (g1_powers (settings st)) = w"
    using msm_powers [OF assms(3) lq] by (simp add: assms(4) w_def)
  have commit: "BlobToKZGCommitment lib st (Some blob) = Returned (compress G c, None)"
    using assms(1,6) vs lvs mc
    by (simp add: BlobToKZGCommitment_def blob_to_kzg_commitment_spec_def p_def)
  have prove: "ComputeKZGProof lib st (Some blob) zBytes
      = Returned (compress G w, encode_fe P y, None)"
    using assms(1,7) vs lvs z mw
    by (simp add: ComputeKZGProof_def compute_kzg_proof_spec_def Let_def p_def q_def y_def)
  have mul: "\<And>a b g. smul1 G (a * b) g = smul1 G a (smul1 G b g)"
    and bil: "\<And>a g h. pairing G (smul1 G a g) h = pairing G g (smul2 G a h)"
    and dc: "\<And>g. decompress G (compress G g) = Some g"
    using assms(3) unfolding curve_ok_def by simp_all
  have dy: "decode_fe P (encode_fe P y) = Some y" using assms(2) by (simp add: params_ok_def)
  have "peval p tau - y = (tau - z) * peval q tau"
    using peval_synth_div [of p tau z] by (simp add: q_def y_def)
  then have "c - smul1 G y (g1_gen G) = smul1 G (tau - z) w"
    by (simp add: c_def w_def smul1_diff [OF assms(3)] mul [symmetric])
  then have "pairing G (c - smul1 G y (g1_gen G)) (g2_gen G)
      = pairing G w (smul2 G (tau - z) (g2_gen G))"
    by (simp add: bil)
  also have "smul2 G (tau - z) (g2_gen G) = g2_tau (settings st) - smul2 G z (g2_gen G)"
    by (simp add: assms(4) setup_from_def smul2_diff [OF assms(3)])
  finally have "VerifyKZGProof lib st (compress G c) zBytes (encode_fe P y) (compress G w)
      = Returned (True, None)"
    using assms(1,8) z dy dc by (simp add: VerifyKZGProof_def verify_kzg_proof_spec_def)
  then show ?thesis using commit prove by blast
qed

theorem kzg_proof_verifies_witness:
  "loaded kzgState17 \<and> params_ok P17 \<and> curve_ok G17
   \<and> settings kzgState17 = setup_from G17 4 (gf 5) \<and> length (eval_domain P17) \<le> 4
   \<and> blob_to_kzg_commitment kzgLib17 = blob_to_kzg_commitment_spec P17 G17
   \<and> compute_kzg_proof kzgLib17 = compute_kzg_proof_spec P17 G17
   \<and> verify_kzg_proof kzgLib17 = verify_kzg_proof_spec P17 G17
   \<and> valid_blob P17 blob17 \<and> decode_fe P17 (encode17 (gf 7)) \<noteq> None
   \<and> (\<exists>commitment prf yBytes.
         BlobToKZGCommitment kzgLib17 kzgState17 (Some blob17) = Returned (commitment, None)
       \<and> ComputeKZGProof kzgLib17 kzgState17 (Some blob17) (encode17 (gf 7))
           = Returned (prf, yBytes, None)
       \<and> VerifyKZGProof kzgLib17 kzgState17 commitment (encode17 (gf 7)) yBytes prf
           = Returned (True, None))"
proof -
  have h: "loaded kzgState17" "settings kzgState17 = setup_from G17 4 (gf 5)"
    "length (eval_domain P17) \<le> 4"
    "blob_to_kzg_commitment kzgLib17 = blob_to_kzg_commitment_spec P17 G17"
    "compute_kzg_proof kzgLib17 = compute_kzg_proof_spec P17 G17"
    "verify_kzg_proof kzgLib17 = verify_kzg_proof_spec P17 G17"
    "decode_fe P17 (encode17 (gf 7)) \<noteq> None"
    by (simp_all add: kzgState17_def kzgLib17_def P17_def decode17_encode17)
  show ?thesis
    using h params_ok_P17 curve_ok_G17 valid_blob17
      kzg_proof_verifies [OF h(1) params_ok_P17 curve_ok_G17 h(2) h(3) h(4) h(5) h(6)
        valid_blob17 h(7)]
    by simp
qed

end
